theory Spec2Isabelle
  imports Main
begin

section \<open>JavaScript values\<close>

text \<open>
  The metadata store of the OpenCode auto-loader, version 2.0 (class
  \<^verbatim>\<open>OpenCodeAutoLoader\<close>), works on values produced by \<^verbatim>\<open>JSON.parse\<close> and
  mutated in memory. A value is a tree: objects are association lists in insertion order,
  arrays carry their elements and, since a JavaScript array is an object, the named
  properties assigned to them.
  \<^verbatim>\<open>undefined\<close> and \<^verbatim>\<open>NaN\<close> are values of their own, because the delta
  applier can store them in memory although JSON cannot hold them.

  Boundaries of the model:
  \<^item> numbers are the integers among the doubles; a fraction and an infinity are no value
    here. A sum is given where it is exact, that is with both operands and the result
    between \<open>-2\<^sup>5\<^sup>3\<close> and \<open>2\<^sup>5\<^sup>3\<close>, and a number is printed where its decimal digits
    are what \<^verbatim>\<open>String\<close> prints, again between these bounds;
  \<^item> a property read finds own properties only. The methods an object or an array
    inherits are functions, which the program treats exactly like \<^verbatim>\<open>undefined\<close> when
    it reads them as data; where the program or the language calls one (\<^verbatim>\<open>toString\<close>,
    \<^verbatim>\<open>join\<close>, \<^verbatim>\<open>push\<close>, \<^verbatim>\<open>slice\<close>, \<^verbatim>\<open>constructor\<close>), an own property of
    that name shadows it, and the call of a value that is no function raises
    \<^verbatim>\<open>TypeError\<close>. The key \<^verbatim>\<open>__proto__\<close> in the path of a delta reaches the
    prototype objects themselves, which are no part of a value: the applier is not followed
    there;
  \<^item> a string assigned to the \<^verbatim>\<open>length\<close> of an array is converted to a length when it
    is empty or a canonical decimal numeral; the conversion of any other string is not
    followed;
  \<^item> the order of an association list stands for property order, which no modelled function
    reads: they only look keys up;
  \<^item> property reads on a primitive value return \<^verbatim>\<open>undefined\<close>: the program reads only
    the keys of its schema from such values.

  Where the model does not follow the program, the operation yields the error
  \<open>Unmodelled\<close>, which is no exception of JavaScript: a statement about the program holds
  for the runs in which it does not occur.
\<close>

datatype jsval =
    JUndefined
  | JNull
  | JBool bool
  | JNum int
  | JNaN
  | JStr string
  | JArr "jsval list" "(string \<times> jsval) list"
  | JObj "(string \<times> jsval) list"

datatype jstype = TUndefined | TObject | TBoolean | TNumber | TString

datatype js_error = TypeError | RangeError | SyntaxError | ENOENT | Unmodelled

text \<open>\<^verbatim>\<open>!x\<close> is \<open>\<not> truthy x\<close>.\<close>

fun truthy :: "jsval \<Rightarrow> bool" where
  "truthy JUndefined = False"
| "truthy JNull = False"
| "truthy (JBool b) = b"
| "truthy (JNum n) = (n \<noteq> 0)"
| "truthy JNaN = False"
| "truthy (JStr s) = (s \<noteq> [])"
| "truthy (JArr es ps) = True"
| "truthy (JObj ps) = True"

fun typeof :: "jsval \<Rightarrow> jstype" where
  "typeof JUndefined = TUndefined"
| "typeof JNull = TObject"
| "typeof (JBool b) = TBoolean"
| "typeof (JNum n) = TNumber"
| "typeof JNaN = TNumber"
| "typeof (JStr s) = TString"
| "typeof (JArr es ps) = TObject"
| "typeof (JObj ps) = TObject"

fun isArray :: "jsval \<Rightarrow> bool" where
  "isArray (JArr es ps) = True"
| "isArray v = False"

text \<open>What \<^verbatim>\<open>x && typeof x === 'object'\<close> accepts: objects and arrays.\<close>

definition is_object :: "jsval \<Rightarrow> bool" where
  "is_object v = (truthy v \<and> typeof v = TObject)"

subsection \<open>Own properties\<close>

fun prop_get :: "(string \<times> jsval) list \<Rightarrow> string \<Rightarrow> jsval" where
  "prop_get [] k = JUndefined"
| "prop_get ((k', v) # ps) k = (if k' = k then v else prop_get ps k)"

text \<open>Assignment keeps the place of an existing key and appends a new one.\<close>

fun prop_set :: "string \<Rightarrow> jsval \<Rightarrow> (string \<times> jsval) list \<Rightarrow> (string \<times> jsval) list" where
  "prop_set k v [] = [(k, v)]"
| "prop_set k v ((k', v') # ps) = (if k' = k then (k, v) # ps else (k', v') # prop_set k v ps)"

fun prop_del :: "string \<Rightarrow> (string \<times> jsval) list \<Rightarrow> (string \<times> jsval) list" where
  "prop_del k [] = []"
| "prop_del k ((k', v') # ps) = (if k' = k then prop_del k ps else (k', v') # prop_del k ps)"

text \<open>An own property of that name exists, whatever it holds.\<close>

definition has_own :: "(string \<times> jsval) list \<Rightarrow> string \<Rightarrow> bool" where
  "has_own ps k = (k \<in> set (map fst ps))"

subsection \<open>Array indices\<close>

definition is_digit :: "char \<Rightarrow> bool" where
  "is_digit c = (48 \<le> (of_char c :: nat) \<and> (of_char c :: nat) \<le> 57)"

definition nat_of_digits :: "string \<Rightarrow> nat" where
  "nat_of_digits s = foldl (\<lambda>n c. 10 * n + ((of_char c :: nat) - 48)) 0 s"

definition canonical_numeral :: "string \<Rightarrow> bool" where
  "canonical_numeral s = (s \<noteq> [] \<and> list_all is_digit s \<and> (s = ''0'' \<or> hd s \<noteq> CHR ''0''))"

text \<open>A property key is an array index when it is the canonical numeral of a number below
  \<open>2\<^sup>3\<^sup>2 - 1\<close>.\<close>

definition array_index :: "string \<Rightarrow> nat option" where
  "array_index k =
     (if canonical_numeral k \<and> nat_of_digits k < 4294967295 then Some (nat_of_digits k) else None)"

subsection \<open>Reading, writing and deleting a property\<close>

fun js_get :: "jsval \<Rightarrow> string \<Rightarrow> jsval" where
  "js_get (JObj ps) k = prop_get ps k"
| "js_get (JArr es ps) k =
     (case array_index k of
        Some i \<Rightarrow> (if i < length es then es ! i else JUndefined)
      | None \<Rightarrow> (if k = ''length'' then JNum (int (length es)) else prop_get ps k))"
| "js_get v k = JUndefined"

subsection \<open>Conversions: \<^verbatim>\<open>ToString\<close>, \<^verbatim>\<open>+\<close>, array lengths\<close>

definition digit_char :: "nat \<Rightarrow> char" where
  "digit_char d = char_of (48 + d)"

text \<open>The decimal digits of a number, most significant first.\<close>

function decimal :: "nat \<Rightarrow> string" where
  "decimal n = (if 10 \<le> n then decimal (n div 10) @ [digit_char (n mod 10)] else [digit_char n])"
  by pat_completeness auto
termination
  by (relation "measure id") auto

definition number_string :: "int \<Rightarrow> string" where
  "number_string i = (if i < 0 then CHR ''-'' # decimal (nat (- i)) else decimal (nat i))"

fun join_comma :: "string list \<Rightarrow> string" where
  "join_comma [] = []"
| "join_comma [s] = s"
| "join_comma (s # t # ss) = s @ '','' @ join_comma (t # ss)"

definition safe_integer :: "int \<Rightarrow> bool" where
  "safe_integer n = (- 9007199254740992 \<le> n \<and> n \<le> 9007199254740992)"

text \<open>
  \<^verbatim>\<open>String(v)\<close>. An object or an array is converted by the \<^verbatim>\<open>toString\<close> it
  inherits, unless an own property of that name shadows it: the values at hand hold no
  function, so the conversion then finds nothing to call (\<^verbatim>\<open>valueOf\<close>, own or inherited,
  never yields a primitive) and raises \<^verbatim>\<open>TypeError\<close>. \<^verbatim>\<open>Array.prototype.toString\<close>
  calls \<^verbatim>\<open>join\<close>, or \<^verbatim>\<open>Object.prototype.toString\<close> when an own property shadows
  \<^verbatim>\<open>join\<close>. \<^verbatim>\<open>join\<close> converts the elements from left to right, \<^verbatim>\<open>null\<close> and
  \<^verbatim>\<open>undefined\<close> to the empty string.\<close>

fun js_to_string :: "jsval \<Rightarrow> js_error + string"
  and js_elem_strings :: "jsval list \<Rightarrow> js_error + string list" where
  "js_to_string JUndefined = Inr ''undefined''"
| "js_to_string JNull = Inr ''null''"
| "js_to_string (JBool b) = Inr (if b then ''true'' else ''false'')"
| "js_to_string (JNum n) = (if safe_integer n then Inr (number_string n) else Inl Unmodelled)"
| "js_to_string JNaN = Inr ''NaN''"
| "js_to_string (JStr s) = Inr s"
| "js_to_string (JArr es ps) =
     (if has_own ps ''toString'' then Inl TypeError
      else if has_own ps ''join'' then Inr ''[object Array]''
      else (case js_elem_strings es of
              Inl e \<Rightarrow> Inl e
            | Inr ss \<Rightarrow> Inr (join_comma ss)))"
| "js_to_string (JObj ps) =
     (if has_own ps ''toString'' then Inl TypeError else Inr ''[object Object]'')"
| "js_elem_strings [] = Inr []"
| "js_elem_strings (e # es) =
     (case (if e = JUndefined \<or> e = JNull then Inr [] else js_to_string e) of
        Inl x \<Rightarrow> Inl x
      | Inr s \<Rightarrow>
          (case js_elem_strings es of
             Inl x \<Rightarrow> Inl x
           | Inr ss \<Rightarrow> Inr (s # ss)))"

text \<open>\<^verbatim>\<open>ToPrimitive\<close>: an object or an array becomes its string.\<close>

fun to_primitive :: "jsval \<Rightarrow> js_error + jsval" where
  "to_primitive (JArr es ps) =
     (case js_to_string (JArr es ps) of Inl e \<Rightarrow> Inl e | Inr s \<Rightarrow> Inr (JStr s))"
| "to_primitive (JObj ps) =
     (case js_to_string (JObj ps) of Inl e \<Rightarrow> Inl e | Inr s \<Rightarrow> Inr (JStr s))"
| "to_primitive v = Inr v"

text \<open>\<^verbatim>\<open>Number(v)\<close> for a primitive that is not a string; \<open>None\<close> is \<^verbatim>\<open>NaN\<close>.\<close>

fun to_number :: "jsval \<Rightarrow> int option" where
  "to_number JNull = Some 0"
| "to_number (JBool b) = Some (if b then 1 else 0)"
| "to_number (JNum n) = Some n"
| "to_number v = None"

text \<open>The operator \<^verbatim>\<open>a + b\<close>: both operands are made primitive, the left one first;
  the result is the concatenation of their strings as soon as one of them is a string, the
  sum of their numbers otherwise.\<close>

definition js_add :: "jsval \<Rightarrow> jsval \<Rightarrow> js_error + jsval" where
  "js_add a b =
     (case to_primitive a of
        Inl e \<Rightarrow> Inl e
      | Inr pa \<Rightarrow>
          (case to_primitive b of
             Inl e \<Rightarrow> Inl e
           | Inr pb \<Rightarrow>
               (if typeof pa = TString \<or> typeof pb = TString then
                  (case js_to_string pa of
                     Inl e \<Rightarrow> Inl e
                   | Inr sa \<Rightarrow>
                       (case js_to_string pb of
                          Inl e \<Rightarrow> Inl e
                        | Inr sb \<Rightarrow> Inr (JStr (sa @ sb))))
                else
                  (case (to_number pa, to_number pb) of
                     (Some x, Some y) \<Rightarrow>
                       (if safe_integer x \<and> safe_integer y \<and> safe_integer (x + y)
                        then Inr (JNum (x + y)) else Inl Unmodelled)
                   | _ \<Rightarrow> Inr JNaN))))"

text \<open>The length that a string stands for: \<^verbatim>\<open>RangeError\<close> when the numeral is not
  below \<open>2\<^sup>3\<^sup>2\<close>.\<close>

definition string_length :: "string \<Rightarrow> js_error + nat" where
  "string_length s =
     (if s = [] then Inr 0
      else if canonical_numeral s then
        (if nat_of_digits s < 4294967296 then Inr (nat_of_digits s) else Inl RangeError)
      else Inl Unmodelled)"

text \<open>The length an assignment \<^verbatim>\<open>arr.length = v\<close> sets, or the exception it raises:
  \<^verbatim>\<open>RangeError\<close> when \<^verbatim>\<open>Number(v)\<close> is no integer from 0 to \<open>2\<^sup>3\<^sup>2 - 1\<close> (an
  object converts to \<^verbatim>\<open>NaN\<close>), \<^verbatim>\<open>TypeError\<close> when \<open>v\<close> cannot be converted.\<close>

fun to_length :: "jsval \<Rightarrow> js_error + nat" where
  "to_length (JNum n) = (if 0 \<le> n \<and> n < 4294967296 then Inr (nat n) else Inl RangeError)"
| "to_length JNull = Inr 0"
| "to_length (JBool b) = Inr (if b then 1 else 0)"
| "to_length (JStr s) = string_length s"
| "to_length (JArr es ps) =
     (case js_to_string (JArr es ps) of Inl e \<Rightarrow> Inl e | Inr s \<Rightarrow> string_length s)"
| "to_length (JObj ps) = (if has_own ps ''toString'' then Inl TypeError else Inl RangeError)"
| "to_length v = Inl RangeError"

text \<open>\<^verbatim>\<open>target[k] = v\<close> in strict mode (a class body is strict code): a write to a
  primitive raises \<^verbatim>\<open>TypeError\<close>; a write past the end of an array leaves holes,
  which read as \<^verbatim>\<open>undefined\<close>.\<close>

fun js_set :: "jsval \<Rightarrow> string \<Rightarrow> jsval \<Rightarrow> js_error + jsval" where
  "js_set (JObj ps) k v = Inr (JObj (prop_set k v ps))"
| "js_set (JArr es ps) k v =
     (case array_index k of
        Some i \<Rightarrow>
          Inr (JArr (if i < length es then es[i := v]
                     else es @ replicate (i - length es) JUndefined @ [v]) ps)
      | None \<Rightarrow>
          (if k = ''length'' then
             (case to_length v of
                Inr n \<Rightarrow> Inr (JArr (take n es @ replicate (n - length es) JUndefined) ps)
              | Inl e \<Rightarrow> Inl e)
           else Inr (JArr es (prop_set k v ps))))"
| "js_set t k v = Inl TypeError"

text \<open>\<^verbatim>\<open>arr.push(v)\<close>: an own property \<^verbatim>\<open>push\<close> shadows the method; an array
  of \<open>2\<^sup>3\<^sup>2 - 1\<close> elements cannot grow.\<close>

fun js_push :: "jsval \<Rightarrow> jsval \<Rightarrow> js_error + jsval" where
  "js_push (JArr es ps) v =
     (if has_own ps ''push'' then Inl TypeError
      else if 4294967295 \<le> length es then Inl RangeError
      else Inr (JArr (es @ [v]) ps))"
| "js_push a v = Inl TypeError"

text \<open>\<^verbatim>\<open>delete target[k]\<close> in strict mode: the \<^verbatim>\<open>length\<close> of an array cannot be
  deleted. (The applier deletes from objects and arrays only.)\<close>

fun js_delete :: "jsval \<Rightarrow> string \<Rightarrow> js_error + jsval" where
  "js_delete (JObj ps) k = Inr (JObj (prop_del k ps))"
| "js_delete (JArr es ps) k =
     (case array_index k of
        Some i \<Rightarrow> Inr (JArr (if i < length es then es[i := JUndefined] else es) ps)
      | None \<Rightarrow> (if k = ''length'' then Inl TypeError else Inr (JArr es (prop_del k ps))))"
| "js_delete JUndefined k = Inl TypeError"
| "js_delete JNull k = Inl TypeError"
| "js_delete t k = Inr t"

subsection \<open>Through JSON text and back\<close>

text \<open>\<open>json_value v\<close> is what \<^verbatim>\<open>JSON.parse(JSON.stringify(v))\<close> returns: properties
  holding \<^verbatim>\<open>undefined\<close> are left out, \<^verbatim>\<open>undefined\<close> elements and \<^verbatim>\<open>NaN\<close>
  become \<^verbatim>\<open>null\<close>, named properties of arrays are lost. (For \<^verbatim>\<open>undefined\<close> itself
  there is no text; no caller passes it.)\<close>

fun json_value :: "jsval \<Rightarrow> jsval"
  and json_elems :: "jsval list \<Rightarrow> jsval list"
  and json_props :: "(string \<times> jsval) list \<Rightarrow> (string \<times> jsval) list" where
  "json_value JUndefined = JUndefined"
| "json_value JNull = JNull"
| "json_value (JBool b) = JBool b"
| "json_value (JNum n) = JNum n"
| "json_value JNaN = JNull"
| "json_value (JStr s) = JStr s"
| "json_value (JArr es ps) = JArr (json_elems es) []"
| "json_value (JObj ps) = JObj (json_props ps)"
| "json_elems [] = []"
| "json_elems (e # es) = (if e = JUndefined then JNull else json_value e) # json_elems es"
| "json_props [] = []"
| "json_props ((k, v) # ps) =
     (if v = JUndefined then json_props ps else (k, json_value v) # json_props ps)"

section \<open>Schema: default, validation, repair\<close>

definition SCHEMA_VERSION :: int where
  "SCHEMA_VERSION = 3"

definition DEFAULT_ESSENTIAL :: "(string \<times> jsval) list" where
  "DEFAULT_ESSENTIAL =
     [(''lastSession'', JStr ''Unknown''),
      (''stack'', JStr ''Node.js + npm + Vite + TypeScript + TanStack''),
      (''projects'', JArr [] []),
      (''sessionCount'', JNum 0)]"

text \<open>\<open>now\<close> is the reading of the clock, \<^verbatim>\<open>new Date().toISOString()\<close>; every
  reading within one operation is the same string. \<^verbatim>\<open>{ ...DEFAULT_ESSENTIAL }\<close>
  copies the four properties, so every default snapshot of a process shares the one array
  \<^verbatim>\<open>projects\<close>; it is taken as the module creates it, empty.\<close>

definition createDefaultMetadata :: "string \<Rightarrow> jsval" where
  "createDefaultMetadata now =
     JObj [(''version'', JNum SCHEMA_VERSION),
           (''lastUpdated'', JStr now),
           (''essential'', JObj DEFAULT_ESSENTIAL)]"

text \<open>The list \<^verbatim>\<open>errors\<close> that \<^verbatim>\<open>validateMetadata\<close> collects for a truthy
  candidate.\<close>

definition essential_errors :: "jsval \<Rightarrow> string list" where
  "essential_errors e =
     (if \<not> truthy (js_get e ''lastSession'') \<or> typeof (js_get e ''lastSession'') \<noteq> TString
      then [''Missing or invalid essential.lastSession''] else []) @
     (if \<not> truthy (js_get e ''stack'') \<or> typeof (js_get e ''stack'') \<noteq> TString
      then [''Missing or invalid essential.stack''] else []) @
     (if \<not> isArray (js_get e ''projects'')
      then [''Missing or invalid essential.projects''] else [])"

definition validation_errors :: "jsval \<Rightarrow> string list" where
  "validation_errors data =
     (if typeof data \<noteq> TObject then [''Metadata is not an object''] else []) @
     (if \<not> truthy (js_get data ''version'') \<or> typeof (js_get data ''version'') \<noteq> TNumber
      then [''Missing or invalid version''] else []) @
     (if \<not> truthy (js_get data ''lastUpdated'') \<or> typeof (js_get data ''lastUpdated'') \<noteq> TString
      then [''Missing or invalid lastUpdated''] else []) @
     (if \<not> truthy (js_get data ''essential'') \<or> typeof (js_get data ''essential'') \<noteq> TObject
      then [''Missing or invalid essential section'']
      else essential_errors (js_get data ''essential''))"

text \<open>A candidate passes the validator when \<^verbatim>\<open>validateMetadata\<close> reaches its last
  line and returns the candidate itself: it is truthy and no error was collected.\<close>

definition passes_validation :: "jsval \<Rightarrow> bool" where
  "passes_validation data = (truthy data \<and> validation_errors data = [])"

text \<open>
  \<^verbatim>\<open>arr.slice(-n)\<close>: a new array of the last \<open>n\<close> elements. An own property
  \<^verbatim>\<open>slice\<close> shadows the method. The method makes its result with the constructor it
  reads from \<^verbatim>\<open>arr.constructor\<close>: an own property of that name holding
  \<^verbatim>\<open>undefined\<close>, an object or an array leads to an ordinary array, any other value it
  holds is no constructor and raises \<^verbatim>\<open>TypeError\<close>.\<close>

definition no_constructor :: "jsval \<Rightarrow> bool" where
  "no_constructor c = (c \<noteq> JUndefined \<and> \<not> (truthy c \<and> typeof c = TObject))"

fun js_slice_last :: "nat \<Rightarrow> jsval \<Rightarrow> js_error + jsval" where
  "js_slice_last n (JArr es ps) =
     (if has_own ps ''slice'' then Inl TypeError
      else if has_own ps ''constructor'' \<and> no_constructor (prop_get ps ''constructor'')
      then Inl TypeError
      else Inr (JArr (drop (length es - n) es) []))"
| "js_slice_last n v = Inl TypeError"

definition repair_essential :: "jsval \<Rightarrow> (string \<times> jsval) list \<Rightarrow> (string \<times> jsval) list" where
  "repair_essential ce e0 =
     (let e1 = (if truthy (js_get ce ''lastSession'')
                then prop_set ''lastSession'' (js_get ce ''lastSession'') e0 else e0);
          e2 = (if truthy (js_get ce ''stack'')
                then prop_set ''stack'' (js_get ce ''stack'') e1 else e1);
          e3 = (if isArray (js_get ce ''projects'')
                then prop_set ''projects'' (js_get ce ''projects'') e2 else e2);
          e4 = (if typeof (js_get ce ''sessionCount'') = TNumber
                then prop_set ''sessionCount'' (js_get ce ''sessionCount'') e3 else e3)
      in e4)"

definition repairMetadata :: "string \<Rightarrow> jsval \<Rightarrow> js_error + jsval" where
  "repairMetadata now corruptedData =
     (let r0 = [(''version'', JNum SCHEMA_VERSION),
                (''lastUpdated'', JStr now),
                (''essential'', JObj DEFAULT_ESSENTIAL)]
      in if truthy corruptedData \<and> typeof corruptedData = TObject then
           (let r1 = (if truthy (js_get corruptedData ''version'')
                      then prop_set ''version'' (js_get corruptedData ''version'') r0 else r0);
                r2 = (if truthy (js_get corruptedData ''lastUpdated'')
                      then prop_set ''lastUpdated'' (js_get corruptedData ''lastUpdated'') r1 else r1);
                ce = js_get corruptedData ''essential'';
                r3 = (if truthy ce \<and> typeof ce = TObject
                      then prop_set ''essential'' (JObj (repair_essential ce DEFAULT_ESSENTIAL)) r2
                      else r2)
            in if isArray (js_get corruptedData ''sessionHistory'') then
                 (case js_slice_last 10 (js_get corruptedData ''sessionHistory'') of
                    Inl e \<Rightarrow> Inl e
                  | Inr h \<Rightarrow> Inr (JObj (prop_set ''sessionHistory'' h r3)))
               else Inr (JObj r3))
         else Inr (JObj r0))"

definition validateMetadata :: "string \<Rightarrow> jsval \<Rightarrow> js_error + jsval" where
  "validateMetadata now data =
     (if \<not> truthy data then Inr (createDefaultMetadata now)
      else if validation_errors data \<noteq> [] then repairMetadata now data
      else Inr data)"

section \<open>The delta applier\<close>

text \<open>\<^verbatim>\<open>field.split('.')\<close>: never empty.\<close>

fun split_dot :: "string \<Rightarrow> string list" where
  "split_dot [] = [[]]"
| "split_dot (c # cs) =
     (if c = CHR ''.'' then [] # split_dot cs
      else (case split_dot cs of
              [] \<Rightarrow> [[c]]
            | seg # segs \<Rightarrow> (c # seg) # segs))"

text \<open>
  The loop \<^verbatim>\<open>for (let i = 1; i < path.length - 1; i++)\<close> of \<^verbatim>\<open>applySingleDelta\<close>
  walks the keys \<open>butlast (tl path)\<close>, replacing by \<^verbatim>\<open>{}\<close> whatever is missing or not
  an object, and leaves \<^verbatim>\<open>target\<close> at the parent of the last key. It mutates in place:
  here every level returns its new value, stored back under the key it was read from.
  \<open>f\<close> is what happens at the parent.\<close>

fun navigate :: "string list \<Rightarrow> (jsval \<Rightarrow> js_error + jsval) \<Rightarrow> jsval \<Rightarrow> js_error + jsval" where
  "navigate [] f target = f target"
| "navigate (key # keys) f target =
     (if \<not> truthy (js_get target key) \<or> typeof (js_get target key) \<noteq> TObject then
        (case js_set target key (JObj []) of
           Inl e \<Rightarrow> Inl e
         | Inr target' \<Rightarrow>
             (case navigate keys f (JObj []) of
                Inl e \<Rightarrow> Inl e
              | Inr child' \<Rightarrow> js_set target' key child'))
      else
        (case navigate keys f (js_get target key) of
           Inl e \<Rightarrow> Inl e
         | Inr child' \<Rightarrow> js_set target key child'))"

text \<open>The \<^verbatim>\<open>switch (delta.op)\<close>; it has no default case. \<^verbatim>\<open>push\<close> changes the
  array in place: here the new array is stored back under its key.\<close>

definition apply_op :: "jsval \<Rightarrow> string \<Rightarrow> jsval \<Rightarrow> jsval \<Rightarrow> js_error + jsval" where
  "apply_op op lastKey v target =
     (if op = JStr ''set'' then js_set target lastKey v
      else if op = JStr ''add'' then
        (if isArray (js_get target lastKey) then
           (case js_push (js_get target lastKey) v of
              Inl e \<Rightarrow> Inl e
            | Inr pushed \<Rightarrow> js_set target lastKey pushed)
         else if typeof (js_get target lastKey) = TNumber then
           (case js_add (js_get target lastKey) v of
              Inl e \<Rightarrow> Inl e
            | Inr summed \<Rightarrow> js_set target lastKey summed)
         else js_set target lastKey v)
      else if op = JStr ''remove'' then js_delete target lastKey
      else Inr target)"

text \<open>\<^verbatim>\<open>delta.field.split\<close> raises \<^verbatim>\<open>TypeError\<close> unless \<^verbatim>\<open>delta.field\<close> is a
  string. A path that uses the key \<^verbatim>\<open>__proto__\<close>, on the walk or as its last key,
  is not followed.\<close>

definition applySingleDelta :: "string \<Rightarrow> jsval \<Rightarrow> jsval \<Rightarrow> js_error + jsval" where
  "applySingleDelta now base delta =
     (let base' = (if \<not> truthy base \<or> typeof base \<noteq> TObject
                   then createDefaultMetadata now else base)
      in case js_get delta ''field'' of
           JStr field \<Rightarrow>
             (if ''__proto__'' \<in> set (butlast (tl (split_dot field)))
                 \<or> last (split_dot field) = ''__proto__''
              then Inl Unmodelled
              else
                navigate (butlast (tl (split_dot field)))
                  (apply_op (js_get delta ''op'') (last (split_dot field))
                     (js_get delta ''value''))
                  base')
         | _ \<Rightarrow> Inl TypeError)"

text \<open>Every key of the walk already holds an object or an array: the walk then replaces
  nothing.\<close>

fun objects_along :: "string list \<Rightarrow> jsval \<Rightarrow> bool" where
  "objects_along [] t = True"
| "objects_along (key # keys) t =
     (truthy (js_get t key) \<and> typeof (js_get t key) = TObject
      \<and> objects_along keys (js_get t key))"

section \<open>Files and operations on them\<close>

text \<open>
  A metadata file is absent, holds text that \<^verbatim>\<open>JSON.parse\<close> (after \<^verbatim>\<open>gunzipSync\<close>
  for the compressed file) rejects, or holds the text of a value. The journal
  \<^verbatim>\<open>context-deltas.jsonl\<close> is absent or a list of newline-terminated lines, each of them
  blank, rejected by \<^verbatim>\<open>JSON.parse\<close>, or the text of a value. The console records the
  messages of the functions that work on files; \<^verbatim>\<open>validateMetadata\<close> and
  \<^verbatim>\<open>repairMetadata\<close> print as well and are pure functions here. Reads, writes and
  appends succeed; \<^verbatim>\<open>unlinkSync\<close> of an absent file raises.\<close>

datatype mfile = Absent | Unreadable | Holds jsval

datatype jline = Blank | Malformed | Parsed jsval

datatype log =
    LoadedCompressed
  | LoadedFastPath
  | DeltaSaved string string
  | AppliedDeltas nat
  | ErrorApplyingDeltas js_error
  | CompactingDeltas
  | DeltasCompacted
  | ErrorCompactingDeltas js_error

record state =
  metadata_gz :: mfile
  metadata_json :: mfile
  deltas_jsonl :: "jline list option"
  console :: "log list"

definition say :: "log \<Rightarrow> state \<Rightarrow> state" where
  "say m s = s\<lparr>console := console s @ [m]\<rparr>"

fun is_blank :: "jline \<Rightarrow> bool" where
  "is_blank Blank = True"
| "is_blank l = False"

text \<open>The lines of \<^verbatim>\<open>content.trim().split('\n')\<close>; the trimmed content is empty
  exactly when there is none.\<close>

definition trim_lines :: "jline list \<Rightarrow> jline list" where
  "trim_lines raw = rev (dropWhile is_blank (rev (dropWhile is_blank raw)))"

definition loadMetadata :: "state \<Rightarrow> jsval \<times> state" where
  "loadMetadata s =
     (case metadata_gz s of
        Holds v \<Rightarrow> (v, say LoadedCompressed s)
      | Unreadable \<Rightarrow> (JNull, s)
      | Absent \<Rightarrow>
          (case metadata_json s of
             Holds v \<Rightarrow> (v, say LoadedFastPath s)
           | _ \<Rightarrow> (JNull, s)))"

text \<open>The loop of \<^verbatim>\<open>applyDeltasToMetadata\<close>; \<open>Inl\<close> is the exception that leaves
  it.\<close>

fun fold_lines :: "string \<Rightarrow> jline list \<Rightarrow> jsval \<Rightarrow> js_error + jsval" where
  "fold_lines now [] result = Inr result"
| "fold_lines now (Parsed delta # rest) result =
     (case applySingleDelta now result delta of
        Inl e \<Rightarrow> Inl e
      | Inr result' \<Rightarrow> fold_lines now rest result')"
| "fold_lines now (l # rest) result = Inl SyntaxError"

definition applyDeltasToMetadata :: "string \<Rightarrow> state \<Rightarrow> jsval \<Rightarrow> jsval \<times> state" where
  "applyDeltasToMetadata now s baseMetadata =
     (case deltas_jsonl s of
        None \<Rightarrow> (baseMetadata, s)
      | Some raw \<Rightarrow>
          (if trim_lines raw = [] then (baseMetadata, s)
           else
             (let copy = (if truthy baseMetadata then json_value baseMetadata else JNull);
                  result = (if \<not> truthy copy then createDefaultMetadata now else copy)
              in case fold_lines now (trim_lines raw) result of
                   Inl e \<Rightarrow> (baseMetadata, say (ErrorApplyingDeltas e) s)
                 | Inr result' \<Rightarrow> (result', say (AppliedDeltas (length (trim_lines raw))) s))))"

text \<open>The outcome of the \<^verbatim>\<open>try\<close> block of \<^verbatim>\<open>applyDeltasToMetadata\<close>: the
  snapshot it returns, or the exception that its \<^verbatim>\<open>catch\<close> receives.\<close>

definition replay :: "string \<Rightarrow> state \<Rightarrow> jsval \<Rightarrow> js_error + jsval" where
  "replay now s baseMetadata =
     (case deltas_jsonl s of
        None \<Rightarrow> Inr baseMetadata
      | Some raw \<Rightarrow>
          (if trim_lines raw = [] then Inr baseMetadata
           else
             (let copy = (if truthy baseMetadata then json_value baseMetadata else JNull);
                  result = (if \<not> truthy copy then createDefaultMetadata now else copy)
              in fold_lines now (trim_lines raw) result)))"

text \<open>Lines 426 to 429 of \<^verbatim>\<open>compactDeltas\<close>: the time stamp and the session
  count. The right-hand side \<^verbatim>\<open>(sessionCount || 0) + 1\<close> is computed before the
  assignment.\<close>

definition finalize :: "string \<Rightarrow> jsval \<Rightarrow> js_error + jsval" where
  "finalize now metadata =
     (case js_set metadata ''lastUpdated'' (JStr now) of
        Inl e \<Rightarrow> Inl e
      | Inr m \<Rightarrow>
          (if truthy (js_get m ''essential'') then
             (case js_add (if truthy (js_get (js_get m ''essential'') ''sessionCount'')
                           then js_get (js_get m ''essential'') ''sessionCount''
                           else JNum 0)
                     (JNum 1) of
                Inl e \<Rightarrow> Inl e
              | Inr count \<Rightarrow>
                  (case js_set (js_get m ''essential'') ''sessionCount'' count of
                     Inl e \<Rightarrow> Inl e
                   | Inr essential' \<Rightarrow> js_set m ''essential'' essential'))
           else Inr m))"

definition compactDeltas :: "string \<Rightarrow> state \<Rightarrow> state" where
  "compactDeltas now s =
     (case metadata_json s of
        Unreadable \<Rightarrow> say (ErrorCompactingDeltas SyntaxError) s
      | f \<Rightarrow>
          (let loaded = (case f of Holds v \<Rightarrow> v | _ \<Rightarrow> createDefaultMetadata now);
               (metadata, s1) = applyDeltasToMetadata now s loaded
           in case finalize now metadata of
                Inl e \<Rightarrow> say (ErrorCompactingDeltas e) s1
              | Inr metadata' \<Rightarrow>
                  (let s2 = s1\<lparr>metadata_json := Holds (json_value metadata')\<rparr>
                   in case deltas_jsonl s2 of
                        None \<Rightarrow> say (ErrorCompactingDeltas ENOENT) s2
                      | Some raw \<Rightarrow> say DeltasCompacted (s2\<lparr>deltas_jsonl := None\<rparr>))))"

definition checkAndCompactDeltas :: "string \<Rightarrow> state \<Rightarrow> state" where
  "checkAndCompactDeltas now s =
     (case deltas_jsonl s of
        None \<Rightarrow> s
      | Some raw \<Rightarrow>
          (if trim_lines raw = [] then s
           else if length (trim_lines raw) \<ge> 50 then compactDeltas now (say CompactingDeltas s)
           else s))"

text \<open>The line \<^verbatim>\<open>saveDelta\<close> appends, as a later \<^verbatim>\<open>JSON.parse\<close> reads it. The
  operation and the field are strings at every call.\<close>

definition delta_line :: "string \<Rightarrow> string \<Rightarrow> string \<Rightarrow> jsval \<Rightarrow> jline" where
  "delta_line now operation field val =
     Parsed (json_value (JObj [(''timestamp'', JStr now),
                               (''op'', JStr operation),
                               (''field'', JStr field),
                               (''value'', val)]))"

definition journal :: "state \<Rightarrow> jline list" where
  "journal s = (case deltas_jsonl s of None \<Rightarrow> [] | Some raw \<Rightarrow> raw)"

text \<open>\<^verbatim>\<open>appendFileSync\<close> creates the journal when it is absent; the message follows
  the append.\<close>

definition appended :: "string \<Rightarrow> string \<Rightarrow> string \<Rightarrow> jsval \<Rightarrow> state \<Rightarrow> state" where
  "appended now operation field val s =
     say (DeltaSaved operation field)
       (s\<lparr>deltas_jsonl := Some (journal s @ [delta_line now operation field val])\<rparr>)"

definition saveDelta :: "string \<Rightarrow> string \<Rightarrow> string \<Rightarrow> jsval \<Rightarrow> state \<Rightarrow> state" where
  "saveDelta now operation field val s =
     checkAndCompactDeltas now (appended now operation field val s)"

text \<open>
  Lines 46 to 55 of \<^verbatim>\<open>initialize\<close>, the only place where the three steps are chained:
  load the snapshot, replay the journal over it, validate or repair. (The guard before
  them, which leaves \<^verbatim>\<open>initialize\<close> early when no context file of any kind exists,
  and the loading of preferences are not part of it.) \<open>Inl\<close> is the exception that
  \<^verbatim>\<open>repairMetadata\<close> raises.\<close>

definition loadFoldValidate :: "string \<Rightarrow> state \<Rightarrow> (js_error + jsval) \<times> state" where
  "loadFoldValidate now s =
     (let (metadata, s1) = loadMetadata s;
          (metadataWithDeltas, s2) = applyDeltasToMetadata now s1 metadata
      in (validateMetadata now metadataWithDeltas, s2))"

text \<open>The value that \<^verbatim>\<open>initialize\<close> hands to \<^verbatim>\<open>validateMetadata\<close>, and the value
  that \<^verbatim>\<open>compactDeltas\<close> stamps and writes: the journal replayed over the loaded
  snapshot. They start from different files: \<^verbatim>\<open>loadMetadata\<close> prefers the compressed
  snapshot and yields \<^verbatim>\<open>null\<close> when there is none, \<^verbatim>\<open>compactDeltas\<close> reads the
  plain one only and starts from the default snapshot when it is absent.\<close>

definition folded :: "string \<Rightarrow> state \<Rightarrow> jsval" where
  "folded now s = fst (applyDeltasToMetadata now (snd (loadMetadata s)) (fst (loadMetadata s)))"

definition compactionFold :: "string \<Rightarrow> state \<Rightarrow> jsval" where
  "compactionFold now s =
     fst (applyDeltasToMetadata now s
            (case metadata_json s of Holds v \<Rightarrow> v | _ \<Rightarrow> createDefaultMetadata now))"

section \<open>Scenarios\<close>

text \<open>A journal line that \<^verbatim>\<open>JSON.parse\<close> accepts.\<close>

fun parses :: "jline \<Rightarrow> bool" where
  "parses (Parsed v) = True"
| "parses l = False"

text \<open>A run of calls of \<^verbatim>\<open>saveDelta\<close>, each with its clock reading, operation, field
  and value.\<close>

fun saveDeltas :: "(string \<times> string \<times> string \<times> jsval) list \<Rightarrow> state \<Rightarrow> state" where
  "saveDeltas [] s = s"
| "saveDeltas ((now, operation, field, val) # calls) s =
     saveDeltas calls (saveDelta now operation field val s)"

definition saved_line :: "string \<times> string \<times> string \<times> jsval \<Rightarrow> jline" where
  "saved_line c = (case c of (now, operation, field, val) \<Rightarrow> delta_line now operation field val)"

definition saved_message :: "string \<times> string \<times> string \<times> jsval \<Rightarrow> log" where
  "saved_message c = (case c of (now, operation, field, val) \<Rightarrow> DeltaSaved operation field)"

text \<open>A first run: no file exists and nothing was printed.\<close>

definition fresh :: state where
  "fresh = \<lparr>metadata_gz = Absent, metadata_json = Absent, deltas_jsonl = None, console = []\<rparr>"

text \<open>A valid snapshot, as the tests of the repository write it, and a delta as
  \<^verbatim>\<open>saveDelta\<close> writes it.\<close>

definition stored :: jsval where
  "stored =
     JObj [(''version'', JNum 3),
           (''lastUpdated'', JStr ''2026-01-17T09:00:00.000Z''),
           (''essential'',
            JObj [(''lastSession'', JStr ''2026-01-17''),
                  (''stack'', JStr ''Node.js + npm''),
                  (''projects'', JArr [JStr ''iron-tracker''] []),
                  (''sessionCount'', JNum 5)])]"

definition set_stack :: jsval where
  "set_stack =
     JObj [(''timestamp'', JStr ''2026-01-18T10:00:00.000Z''),
           (''op'', JStr ''set''),
           (''field'', JStr ''essential.stack''),
           (''value'', JStr ''Deno'')]"

text \<open>The snapshot on disk with one delta pending; the same with a second journal line cut
  short; an empty object on disk with one delta pending.\<close>

definition pending :: state where
  "pending = fresh\<lparr>metadata_json := Holds stored, deltas_jsonl := Some [Parsed set_stack]\<rparr>"


definition bare :: state where
  "bare = fresh\<lparr>metadata_json := Holds (JObj []), deltas_jsonl := Some [Parsed set_stack]\<rparr>"

text \<open>Deltas whose \<^verbatim>\<open>op\<close> the switch does not know, with a path of three and of two
  segments.\<close>

definition touch :: jsval where
  "touch = JObj [(''op'', JStr ''touch''), (''field'', JStr ''essential.history.latest'')]"

definition touch_short :: jsval where
  "touch_short = JObj [(''op'', JStr ''touch''), (''field'', JStr ''essential.lastSession'')]"

text \<open>The candidates of the tests \<^verbatim>\<open>should repair corrupted metadata\<close> and
  \<^verbatim>\<open>should repair metadata preserving valid fields\<close> in
  \<^verbatim>\<open>opencode-loader.test.js\<close>; both tests expect \<^verbatim>\<open>result.version\<close> to be 3.\<close>

definition test_corrupted :: jsval where
  "test_corrupted =
     JObj [(''version'', JStr ''invalid''),
           (''lastUpdated'', JNull),
           (''essential'', JObj [(''lastSession'', JStr ''2026-01-17'')])]"

definition test_preserved :: jsval where
  "test_preserved =
     JObj [(''version'', JNum 2),
           (''lastUpdated'', JStr ''2026-01-15T10:00:00Z''),
           (''essential'',
            JObj [(''lastSession'', JStr ''2026-01-15''),
                  (''stack'', JStr ''Custom Stack''),
                  (''projects'', JArr [JStr ''custom-project''] []),
                  (''sessionCount'', JNum 10)])]"

text \<open>Two updates on a first run: a project is added, the session count is raised.\<close>

definition scenario :: state where
  "scenario =
     saveDelta ''2026-01-20T08:00:02.000Z'' ''add'' ''essential.sessionCount'' (JNum 1)
       (saveDelta ''2026-01-20T08:00:01.000Z'' ''add'' ''essential.projects''
          (JStr ''iron-tracker'') fresh)"

text \<open>A snapshot whose session history gets an own property \<^verbatim>\<open>slice\<close> from a delta
  of the journal.\<close>

definition history_only :: jsval where
  "history_only = JObj [(''sessionHistory'', JArr [JStr ''2026-01-17: setup''] [])]"

definition set_slice :: jsval where
  "set_slice =
     JObj [(''timestamp'', JStr ''2026-01-18T10:00:00.000Z''),
           (''op'', JStr ''set''),
           (''field'', JStr ''context.sessionHistory.slice''),
           (''value'', JNum 1)]"

definition shadowing :: state where
  "shadowing = fresh\<lparr>metadata_json := Holds history_only,
                      deltas_jsonl := Some [Parsed set_slice]\<rparr>"

text \<open>An \<^verbatim>\<open>add\<close> whose value cannot be converted to a primitive, aimed at the number
  \<^verbatim>\<open>version\<close> of the snapshot.\<close>

definition add_unprintable :: jsval where
  "add_unprintable =
     JObj [(''op'', JStr ''add''),
           (''field'', JStr ''essential.version''),
           (''value'', JObj [(''toString'', JNum 1)])]"

text \<open>A valid snapshot whose session count is an object with an own property
  \<^verbatim>\<open>toString\<close>, on disk with one delta pending.\<close>

definition unprintable :: jsval where
  "unprintable =
     JObj [(''version'', JNum 3),
           (''lastUpdated'', JStr ''2026-01-17T09:00:00.000Z''),
           (''essential'',
            JObj [(''lastSession'', JStr ''2026-01-17''),
                  (''stack'', JStr ''Node.js + npm''),
                  (''projects'', JArr [] []),
                  (''sessionCount'', JObj [(''toString'', JNum 1)])])]"

definition jammed :: state where
  "jammed = fresh\<lparr>metadata_json := Holds unprintable, deltas_jsonl := Some [Parsed set_stack]\<rparr>"

section \<open>Evaluating the model\<close>

lemmas model_defs =
  repairMetadata_def repair_essential_def Let_def DEFAULT_ESSENTIAL_def SCHEMA_VERSION_def
  createDefaultMetadata_def validation_errors_def essential_errors_def passes_validation_def
  validateMetadata_def applySingleDelta_def apply_op_def loadMetadata_def
  applyDeltasToMetadata_def finalize_def compactDeltas_def checkAndCompactDeltas_def
  delta_line_def journal_def appended_def saveDelta_def loadFoldValidate_def say_def
  trim_lines_def js_add_def array_index_def canonical_numeral_def is_digit_def fresh_def
  folded_def compactionFold_def replay_def has_own_def safe_integer_def no_constructor_def

lemma prop_get_set: "prop_get (prop_set k v ps) k' = (if k' = k then v else prop_get ps k')"
  by (induction ps) auto

lemma array_index_schema_keys:
  "array_index ''version'' = None" "array_index ''lastUpdated'' = None"
  "array_index ''essential'' = None" "array_index ''lastSession'' = None"
  "array_index ''stack'' = None" "array_index ''projects'' = None"
  "array_index ''sessionCount'' = None"
  by (simp_all add: array_index_def canonical_numeral_def is_digit_def)

text \<open>What \<^verbatim>\<open>applyDeltasToMetadata\<close> returns is the outcome of its \<^verbatim>\<open>try\<close>
  block, or the base when the block raised.\<close>

lemma replay_is_the_try_block:
  "fst (applyDeltasToMetadata now s b) = (case replay now s b of Inl e \<Rightarrow> b | Inr r \<Rightarrow> r)"
  by (simp add: applyDeltasToMetadata_def replay_def Let_def split: option.splits sum.splits)

subsection \<open>Values that a trip through JSON text leaves unchanged\<close>

lemma length_json_props: "length (json_props ps) \<le> length ps"
  by (induction ps) (auto simp add: le_SucI)

lemma json_props_cons:
  "json_props ((k, v) # ps) = (k, v) # ps
     \<longleftrightarrow> v \<noteq> JUndefined \<and> json_value v = v \<and> json_props ps = ps"
proof (cases "v = JUndefined")
  case True
  have "length (json_props ps) \<noteq> Suc (length ps)"
    using length_json_props [of ps] by simp
  then have "json_props ps \<noteq> (k, v) # ps"
    by (metis length_Cons)
  with True show ?thesis by simp
next
  case False
  then show ?thesis by auto
qed

lemma json_props_get:
  "json_props ps = ps \<Longrightarrow> truthy (prop_get ps k) \<Longrightarrow> json_value (prop_get ps k) = prop_get ps k"
proof (induction ps)
  case Nil
  then show ?case by simp
next
  case (Cons p ps)
  obtain k' v' where p: "p = (k', v')" by (cases p) auto
  from Cons.prems(1) have "v' \<noteq> JUndefined" "json_value v' = v'" "json_props ps = ps"
    unfolding p json_props_cons by auto
  with Cons show ?case by (auto simp add: p)
qed

lemma json_props_set:
  "json_props ps = ps \<Longrightarrow> v \<noteq> JUndefined \<Longrightarrow> json_value v = v \<Longrightarrow>
   json_props (prop_set k v ps) = prop_set k v ps"
proof (induction ps)
  case Nil
  then show ?case by simp
next
  case (Cons p ps)
  obtain k' v' where p: "p = (k', v')" by (cases p) auto
  from Cons.prems(1) have "v' \<noteq> JUndefined" "json_value v' = v'" "json_props ps = ps"
    unfolding p json_props_cons by auto
  with Cons show ?case by (auto simp add: p)
qed

section \<open>Repair\<close>

lemma repair_essential_again:
  "repair_essential (JObj (repair_essential ce DEFAULT_ESSENTIAL)) DEFAULT_ESSENTIAL
     = repair_essential ce DEFAULT_ESSENTIAL"
  by (simp add: repair_essential_def DEFAULT_ESSENTIAL_def Let_def)

lemma repair_essential_default:
  "repair_essential (JObj DEFAULT_ESSENTIAL) DEFAULT_ESSENTIAL = DEFAULT_ESSENTIAL"
  by (simp add: repair_essential_def DEFAULT_ESSENTIAL_def Let_def)

text \<open>A value of the shape that \<^verbatim>\<open>repairMetadata\<close> builds is left as it is by a second
  repair.\<close>

lemma repair_fixed:
  assumes r: "r = JObj ((''version'', v) # (''lastUpdated'', l) # (''essential'', JObj e) # h)"
    and v: "truthy v"
    and l: "truthy l \<or> l = JStr now"
    and e: "repair_essential (JObj e) DEFAULT_ESSENTIAL = e"
    and h: "h = [] \<or> (\<exists>es. h = [(''sessionHistory'', JArr es [])] \<and> length es \<le> 10)"
  shows "repairMetadata now r = Inr r"
proof -
  from h show ?thesis
  proof
    assume "h = []"
    with r v l e show ?thesis
      by (auto simp add: repairMetadata_def Let_def)
  next
    assume "\<exists>es. h = [(''sessionHistory'', JArr es [])] \<and> length es \<le> 10"
    then obtain es where "h = [(''sessionHistory'', JArr es [])]" "length es \<le> 10"
      by blast
    with r v l e show ?thesis
      by (auto simp add: repairMetadata_def Let_def has_own_def)
  qed
qed

text \<open>The snapshot under repair, before its session history is looked at.\<close>

lemma repair_unfold:
  assumes "truthy X" and "typeof X = TObject"
  shows "repairMetadata now X =
     (if isArray (js_get X ''sessionHistory'') then
        (case js_slice_last 10 (js_get X ''sessionHistory'') of
           Inl e \<Rightarrow> Inl e
         | Inr h \<Rightarrow>
             Inr (JObj [(''version'', if truthy (js_get X ''version'') then js_get X ''version''
                                      else JNum SCHEMA_VERSION),
                       (''lastUpdated'', if truthy (js_get X ''lastUpdated'')
                                         then js_get X ''lastUpdated'' else JStr now),
                       (''essential'',
                        JObj (if truthy (js_get X ''essential'')
                                 \<and> typeof (js_get X ''essential'') = TObject
                              then repair_essential (js_get X ''essential'') DEFAULT_ESSENTIAL
                              else DEFAULT_ESSENTIAL)),
                       (''sessionHistory'', h)]))
      else
        Inr (JObj [(''version'', if truthy (js_get X ''version'') then js_get X ''version''
                                 else JNum SCHEMA_VERSION),
                   (''lastUpdated'', if truthy (js_get X ''lastUpdated'')
                                     then js_get X ''lastUpdated'' else JStr now),
                   (''essential'',
                    JObj (if truthy (js_get X ''essential'')
                             \<and> typeof (js_get X ''essential'') = TObject
                          then repair_essential (js_get X ''essential'') DEFAULT_ESSENTIAL
                          else DEFAULT_ESSENTIAL))]))"
  using assms by (auto simp add: repairMetadata_def Let_def split: sum.splits)

text \<open>\<^verbatim>\<open>slice(-10)\<close> returns a plain array of at most ten elements.\<close>

lemma slice_result:
  "js_slice_last 10 a = Inr h \<Longrightarrow> \<exists>es. h = JArr es [] \<and> length es \<le> 10"
  by (cases a) (auto split: if_splits)

lemma repair_shape:
  assumes "repairMetadata now X = Inr r"
  shows "\<exists>v l e h. r = JObj ((''version'', v) # (''lastUpdated'', l) # (''essential'', JObj e) # h)
     \<and> truthy v \<and> (truthy l \<or> l = JStr now)
     \<and> repair_essential (JObj e) DEFAULT_ESSENTIAL = e
     \<and> (h = [] \<or> (\<exists>es. h = [(''sessionHistory'', JArr es [])] \<and> length es \<le> 10))"
proof (cases "truthy X \<and> typeof X = TObject")
  case False
  then have "repairMetadata now X =
      Inr (JObj ((''version'', JNum SCHEMA_VERSION) # (''lastUpdated'', JStr now)
            # (''essential'', JObj DEFAULT_ESSENTIAL) # []))"
    by (auto simp add: repairMetadata_def)
  with assms have "r = JObj ((''version'', JNum SCHEMA_VERSION) # (''lastUpdated'', JStr now)
            # (''essential'', JObj DEFAULT_ESSENTIAL) # [])"
    by simp
  moreover have "truthy (JNum SCHEMA_VERSION)"
    by (simp add: SCHEMA_VERSION_def)
  ultimately show ?thesis
    using repair_essential_default by blast
next
  case True
  define v where
    "v = (if truthy (js_get X ''version'') then js_get X ''version'' else JNum SCHEMA_VERSION)"
  define l where
    "l = (if truthy (js_get X ''lastUpdated'') then js_get X ''lastUpdated'' else JStr now)"
  define e where
    "e = (if truthy (js_get X ''essential'') \<and> typeof (js_get X ''essential'') = TObject
          then repair_essential (js_get X ''essential'') DEFAULT_ESSENTIAL
          else DEFAULT_ESSENTIAL)"
  have unfold: "repairMetadata now X =
     (if isArray (js_get X ''sessionHistory'') then
        (case js_slice_last 10 (js_get X ''sessionHistory'') of
           Inl x \<Rightarrow> Inl x
         | Inr h \<Rightarrow> Inr (JObj [(''version'', v), (''lastUpdated'', l), (''essential'', JObj e),
                                (''sessionHistory'', h)]))
      else Inr (JObj [(''version'', v), (''lastUpdated'', l), (''essential'', JObj e)]))"
    unfolding v_def l_def e_def using True by (intro repair_unfold) simp_all
  have v: "truthy v"
    by (simp add: v_def SCHEMA_VERSION_def)
  have l: "truthy l \<or> l = JStr now"
    by (simp add: l_def)
  have e: "repair_essential (JObj e) DEFAULT_ESSENTIAL = e"
    by (simp add: e_def repair_essential_again repair_essential_default)
  show ?thesis
  proof (cases "isArray (js_get X ''sessionHistory'')")
    case False
    with unfold assms have "r = JObj ((''version'', v) # (''lastUpdated'', l)
        # (''essential'', JObj e) # [])"
      by simp
    with v l e show ?thesis by blast
  next
    case True
    with unfold assms obtain h where h: "js_slice_last 10 (js_get X ''sessionHistory'') = Inr h"
      and r: "r = JObj ((''version'', v) # (''lastUpdated'', l) # (''essential'', JObj e)
          # [(''sessionHistory'', h)])"
      by (auto split: sum.splits)
    from slice_result [OF h] obtain es where "h = JArr es []" "length es \<le> 10"
      by blast
    with r v l e show ?thesis by blast
  qed
qed

lemma repair_raises:
  "repairMetadata now X = Inl e \<longleftrightarrow>
     truthy X \<and> typeof X = TObject \<and> isArray (js_get X ''sessionHistory'')
     \<and> js_slice_last 10 (js_get X ''sessionHistory'') = Inl e"
proof (cases "truthy X \<and> typeof X = TObject")
  case False
  then show ?thesis by (auto simp add: repairMetadata_def)
next
  case True
  then show ?thesis
    by (auto simp add: repair_unfold split: sum.splits)
qed

lemma slice_raises:
  "js_slice_last n (JArr es ps) = Inl e \<longleftrightarrow>
     e = TypeError \<and> (has_own ps ''slice''
        \<or> has_own ps ''constructor'' \<and> no_constructor (prop_get ps ''constructor''))"
  by auto

text \<open>An array that came out of JSON text has no named property.\<close>

lemma json_array_plain:
  assumes "json_value X = X" and "js_get X k = JArr es ps" and "array_index k = None"
  shows "ps = []"
proof (cases X)
  case (JObj qs)
  with assms have "json_props qs = qs" "prop_get qs k = JArr es ps" by auto
  then have "json_value (JArr es ps) = JArr es ps"
    using json_props_get [of qs k] by simp
  then show ?thesis by simp
next
  case (JArr es' ps')
  with assms(1) have "ps' = []" by simp
  with JArr assms(2,3) show ?thesis by (simp split: if_splits)
qed (use assms(2) in simp_all)

text \<open>
  Claim C8, as the code has it. With the clock reading fixed, repairing the result of a
  repair changes nothing: whenever \<^verbatim>\<open>repairMetadata\<close> returns, a second repair of what
  it returned returns the same snapshot. It returns for every input that JSON text can hold
  (\<^verbatim>\<open>null\<close>, \<^verbatim>\<open>{}\<close>, a primitive, an array, any object). It raises, always
  \<^verbatim>\<open>TypeError\<close>, exactly when the input is an object or array whose
  \<^verbatim>\<open>sessionHistory\<close> is an array on which \<^verbatim>\<open>slice(-10)\<close> cannot be called: one
  with an own property \<^verbatim>\<open>slice\<close>, or with an own property \<^verbatim>\<open>constructor\<close> that
  holds a primitive other than \<^verbatim>\<open>undefined\<close>.\<close>

theorem repair_idempotent:
  "(\<forall>r. repairMetadata now X = Inr r \<longrightarrow> repairMetadata now r = Inr r)
   \<and> (json_value X = X \<longrightarrow> (\<exists>r. repairMetadata now X = Inr r))
   \<and> ((\<exists>e. repairMetadata now X = Inl e) \<longleftrightarrow>
        truthy X \<and> typeof X = TObject
        \<and> (\<exists>es ps. js_get X ''sessionHistory'' = JArr es ps
              \<and> (has_own ps ''slice''
                  \<or> has_own ps ''constructor'' \<and> no_constructor (prop_get ps ''constructor''))))
   \<and> (repairMetadata now X = Inl e \<longrightarrow> e = TypeError)"
proof (intro conjI allI impI)
  fix r assume "repairMetadata now X = Inr r"
  then obtain v l e h where
    "r = JObj ((''version'', v) # (''lastUpdated'', l) # (''essential'', JObj e) # h)"
    "truthy v" "truthy l \<or> l = JStr now"
    "repair_essential (JObj e) DEFAULT_ESSENTIAL = e"
    "h = [] \<or> (\<exists>es. h = [(''sessionHistory'', JArr es [])] \<and> length es \<le> 10)"
    using repair_shape by blast
  then show "repairMetadata now r = Inr r"
    by (rule repair_fixed)
next
  assume clean: "json_value X = X"
  have "repairMetadata now X \<noteq> Inl x" for x
  proof
    assume "repairMetadata now X = Inl x"
    then have a: "isArray (js_get X ''sessionHistory'')"
      and s: "js_slice_last 10 (js_get X ''sessionHistory'') = Inl x"
      by (simp_all add: repair_raises)
    from a obtain es ps where arr: "js_get X ''sessionHistory'' = JArr es ps"
      by (cases "js_get X ''sessionHistory''") auto
    have "array_index ''sessionHistory'' = None"
      by (simp add: array_index_def canonical_numeral_def is_digit_def)
    with clean arr have "ps = []"
      by (rule json_array_plain)
    with s arr show False by (simp add: has_own_def)
  qed
  then show "\<exists>r. repairMetadata now X = Inr r"
    by (cases "repairMetadata now X") auto
next
  show "(\<exists>e. repairMetadata now X = Inl e) \<longleftrightarrow>
        truthy X \<and> typeof X = TObject
        \<and> (\<exists>es ps. js_get X ''sessionHistory'' = JArr es ps
              \<and> (has_own ps ''slice''
                  \<or> has_own ps ''constructor'' \<and> no_constructor (prop_get ps ''constructor'')))"
  proof (cases "js_get X ''sessionHistory''")
    case (JArr es ps)
    then show ?thesis
      unfolding repair_raises by (simp add: slice_raises)
  qed (simp_all add: repair_raises)
next
  assume "repairMetadata now X = Inl e"
  then have "isArray (js_get X ''sessionHistory'')"
    and "js_slice_last 10 (js_get X ''sessionHistory'') = Inl e"
    by (simp_all add: repair_raises)
  then show "e = TypeError"
    by (cases "js_get X ''sessionHistory''") (auto split: if_splits)
qed

text \<open>The theorem at a candidate with a bad version and a session history.\<close>

theorem repair_idempotent_witness:
  "repairMetadata ''2026-01-20T08:00:00.000Z''
     (JObj [(''version'', JStr ''invalid''), (''sessionHistory'', JArr [JNum 1] [])])
     = Inr (JObj [(''version'', JStr ''invalid''),
                  (''lastUpdated'', JStr ''2026-01-20T08:00:00.000Z''),
                  (''essential'', JObj DEFAULT_ESSENTIAL),
                  (''sessionHistory'', JArr [JNum 1] [])])
   \<and> repairMetadata ''2026-01-20T08:00:00.000Z''
       (JObj [(''version'', JStr ''invalid''),
              (''lastUpdated'', JStr ''2026-01-20T08:00:00.000Z''),
              (''essential'', JObj DEFAULT_ESSENTIAL),
              (''sessionHistory'', JArr [JNum 1] [])])
     = Inr (JObj [(''version'', JStr ''invalid''),
                  (''lastUpdated'', JStr ''2026-01-20T08:00:00.000Z''),
                  (''essential'', JObj DEFAULT_ESSENTIAL),
                  (''sessionHistory'', JArr [JNum 1] [])])"
proof -
  have first: "repairMetadata ''2026-01-20T08:00:00.000Z''
     (JObj [(''version'', JStr ''invalid''), (''sessionHistory'', JArr [JNum 1] [])])
     = Inr (JObj [(''version'', JStr ''invalid''),
                  (''lastUpdated'', JStr ''2026-01-20T08:00:00.000Z''),
                  (''essential'', JObj DEFAULT_ESSENTIAL),
                  (''sessionHistory'', JArr [JNum 1] [])])"
    by (simp add: repairMetadata_def Let_def has_own_def SCHEMA_VERSION_def)
  moreover have "json_value (JObj [(''version'', JStr ''invalid''),
      (''sessionHistory'', JArr [JNum 1] [])])
    = JObj [(''version'', JStr ''invalid''), (''sessionHistory'', JArr [JNum 1] [])]"
    by simp
  ultimately show ?thesis
    using repair_idempotent [of "''2026-01-20T08:00:00.000Z''"
        "JObj [(''version'', JStr ''invalid''), (''sessionHistory'', JArr [JNum 1] [])]"]
    by simp
qed

text \<open>Claim C8 as stated fails: a delta of the journal can give the session history an own
  property \<^verbatim>\<open>slice\<close>; the repair of that snapshot raises, and so does the load that
  runs it.\<close>

theorem repair_raises_on_shadowed_slice:
  "applySingleDelta ''2026-01-20T08:00:00.000Z'' history_only set_slice
     = Inr (JObj [(''sessionHistory'',
                   JArr [JStr ''2026-01-17: setup''] [(''slice'', JNum 1)])])
   \<and> repairMetadata ''2026-01-20T08:00:00.000Z''
        (JObj [(''sessionHistory'', JArr [JStr ''2026-01-17: setup''] [(''slice'', JNum 1)])])
       = Inl TypeError
   \<and> fst (loadFoldValidate ''2026-01-20T08:00:00.000Z'' shadowing) = Inl TypeError"
  by (simp add: model_defs history_only_def set_slice_def shadowing_def)

text \<open>
  Claim C5. Repair is total and its result passes the validator. For the candidate of the
  repository's test \<^verbatim>\<open>should repair corrupted metadata\<close> the repair returns, but its
  result fails validation: \<^verbatim>\<open>repairMetadata\<close> copies \<^verbatim>\<open>version\<close> whenever it is
  truthy, without the type check of the validator, so the repaired snapshot keeps the string
  \<^verbatim>\<open>'invalid'\<close> as its version.\<close>

theorem repair_result_invalid:
  "repairMetadata ''2026-01-20T08:00:00.000Z'' test_corrupted
     = Inr (JObj [(''version'', JStr ''invalid''),
                  (''lastUpdated'', JStr ''2026-01-20T08:00:00.000Z''),
                  (''essential'',
                   JObj [(''lastSession'', JStr ''2026-01-17''),
                         (''stack'', JStr ''Node.js + npm + Vite + TypeScript + TanStack''),
                         (''projects'', JArr [] []),
                         (''sessionCount'', JNum 0)])])
   \<and> \<not> passes_validation
         (JObj [(''version'', JStr ''invalid''),
                (''lastUpdated'', JStr ''2026-01-20T08:00:00.000Z''),
                (''essential'',
                 JObj [(''lastSession'', JStr ''2026-01-17''),
                       (''stack'', JStr ''Node.js + npm + Vite + TypeScript + TanStack''),
                       (''projects'', JArr [] []),
                       (''sessionCount'', JNum 0)])])"
  by (simp add: model_defs test_corrupted_def)

text \<open>
  Claim C6. Repair starts from a fresh default, salvages the fields that pass their type
  check, and always overwrites the schema version with the current constant and the time
  stamp with the current time. For the candidate of the test
  \<^verbatim>\<open>should repair metadata preserving valid fields\<close> the code keeps version 2 and the old
  time stamp; the claim's own example, which has neither field, comes out as the claim
  says.\<close>

theorem repair_keeps_version:
  "repairMetadata ''2026-01-20T08:00:00.000Z'' test_preserved
     = Inr (JObj [(''version'', JNum 2),
                  (''lastUpdated'', JStr ''2026-01-15T10:00:00Z''),
                  (''essential'',
                   JObj [(''lastSession'', JStr ''2026-01-15''),
                         (''stack'', JStr ''Custom Stack''),
                         (''projects'', JArr [JStr ''custom-project''] []),
                         (''sessionCount'', JNum 10)])])
   \<and> JNum 2 \<noteq> JNum SCHEMA_VERSION
   \<and> JStr ''2026-01-15T10:00:00Z'' \<noteq> JStr ''2026-01-20T08:00:00.000Z''
   \<and> repairMetadata ''2026-01-20T08:00:00.000Z''
         (JObj [(''essential'', JObj [(''lastSession'', JStr ''2026-01-01'')])])
       = Inr (JObj [(''version'', JNum SCHEMA_VERSION),
                    (''lastUpdated'', JStr ''2026-01-20T08:00:00.000Z''),
                    (''essential'',
                     JObj [(''lastSession'', JStr ''2026-01-01''),
                           (''stack'', JStr ''Node.js + npm + Vite + TypeScript + TanStack''),
                           (''projects'', JArr [] []),
                           (''sessionCount'', JNum 0)])])"
  by (simp add: model_defs test_preserved_def)

section \<open>The delta applier\<close>

lemma is_object_cases: "is_object v \<longleftrightarrow> (\<exists>ps. v = JObj ps) \<or> (\<exists>es ps. v = JArr es ps)"
  by (cases v) (auto simp add: is_object_def)

lemma js_set_object:
  "is_object t \<Longrightarrow> k \<noteq> ''length'' \<Longrightarrow> \<exists>r. js_set t k v = Inr r \<and> is_object r"
  by (auto simp add: is_object_cases is_object_def split: option.splits)

lemma js_delete_object:
  "is_object t \<Longrightarrow> k \<noteq> ''length'' \<Longrightarrow> \<exists>r. js_delete t k = Inr r \<and> is_object r"
  by (auto simp add: is_object_cases split: option.splits)

lemma apply_op_object:
  assumes "is_object t" and "k \<noteq> ''length''" and "op \<noteq> JStr ''add''"
  shows "\<exists>r. apply_op op k v t = Inr r \<and> is_object r"
proof -
  have set: "\<exists>r. js_set t k v = Inr r \<and> is_object r"
    using assms(1,2) by (rule js_set_object)
  have del: "\<exists>r. js_delete t k = Inr r \<and> is_object r"
    using assms(1,2) by (rule js_delete_object)
  show ?thesis
    using set del assms(1,3) by (auto simp add: apply_op_def)
qed

text \<open>The walk raises nothing as long as no key is \<^verbatim>\<open>length\<close>: every level is an
  object or an array, and a write to one of those succeeds.\<close>

lemma navigate_object:
  assumes "is_object t" and "''length'' \<notin> set keys"
    and "\<And>u. is_object u \<Longrightarrow> \<exists>r. f u = Inr r \<and> is_object r"
  shows "\<exists>r. navigate keys f t = Inr r \<and> is_object r"
  using assms(1,2)
proof (induction keys arbitrary: t)
  case Nil
  then show ?case using assms(3) by simp
next
  case (Cons key keys)
  then have key: "key \<noteq> ''length''" and keys: "''length'' \<notin> set keys"
    by auto
  show ?case
  proof (cases "\<not> truthy (js_get t key) \<or> typeof (js_get t key) \<noteq> TObject")
    case True
    obtain t' where t': "js_set t key (JObj []) = Inr t'" "is_object t'"
      using js_set_object [OF Cons.prems(1) key] by blast
    have "is_object (JObj [])" by (simp add: is_object_def)
    then obtain c where c: "navigate keys f (JObj []) = Inr c" "is_object c"
      using Cons.IH keys by blast
    obtain r where "js_set t' key c = Inr r" "is_object r"
      using js_set_object [OF t'(2) key] by blast
    with True t' c show ?thesis by simp
  next
    case False
    then have "is_object (js_get t key)" by (simp add: is_object_def)
    then obtain c where c: "navigate keys f (js_get t key) = Inr c" "is_object c"
      using Cons.IH keys by blast
    obtain r where "js_set t key c = Inr r" "is_object r"
      using js_set_object [OF Cons.prems(1) key] by blast
    with False c show ?thesis by simp
  qed
qed

lemma split_dot_nonempty: "split_dot f \<noteq> []"
  by (induction f) (auto split: list.splits)

lemma default_is_object: "is_object (createDefaultMetadata now)"
  by (simp add: createDefaultMetadata_def is_object_def)

text \<open>With an operation the switch does not know, only the walk can change the snapshot; it
  changes nothing exactly when every key on the way already holds an object or an array.\<close>

lemma prop_set_same: "prop_get ps k \<noteq> JUndefined \<Longrightarrow> prop_set k (prop_get ps k) ps = ps"
  by (induction ps) auto

lemma js_set_same:
  assumes "is_object t" and "is_object (js_get t k)"
  shows "js_set t k (js_get t k) = Inr t"
proof (cases t)
  case (JObj ps)
  with assms(2) have "prop_get ps k \<noteq> JUndefined"
    by (auto simp add: is_object_def)
  with JObj show ?thesis by (simp add: prop_set_same)
next
  case (JArr es ps)
  show ?thesis
  proof (cases "array_index k")
    case (Some i)
    with JArr assms(2) have "i < length es"
      by (auto simp add: is_object_def split: if_splits)
    with JArr Some show ?thesis by simp
  next
    case None
    with JArr assms(2) have "k \<noteq> ''length''" "prop_get ps k \<noteq> JUndefined"
      by (auto simp add: is_object_def split: if_splits)
    with JArr None show ?thesis by (simp add: prop_set_same)
  qed
qed (use assms(1) in \<open>simp_all add: is_object_def\<close>)

lemma js_set_result_object: "js_set t k v = Inr r \<Longrightarrow> is_object r"
  by (cases t) (auto simp add: is_object_def split: option.splits sum.splits if_splits)

lemma js_get_js_set:
  assumes "js_set t k v = Inr r" and "\<not> (isArray t \<and> k = ''length'')"
  shows "js_get r k = v"
proof (cases t)
  case (JObj ps)
  with assms(1) show ?thesis by (auto simp add: prop_get_set)
next
  case (JArr es ps)
  show ?thesis
  proof (cases "array_index k")
    case (Some i)
    with JArr assms(1) show ?thesis
      by (auto simp add: nth_append)
  next
    case None
    with JArr assms show ?thesis by (auto simp add: prop_get_set)
  qed
qed (use assms(1) in simp_all)

lemma js_set_keeps_kind: "js_set t k v = Inr r \<Longrightarrow> isArray r = isArray t"
  by (cases t) (auto split: option.splits sum.splits if_splits)

lemma no_object_under_length: "is_object (js_get t k) \<Longrightarrow> \<not> (isArray t \<and> k = ''length'')"
  by (cases t) (auto simp add: is_object_def array_index_def canonical_numeral_def is_digit_def)

lemma no_object_into_length:
  "js_set t k (JObj []) = Inr r \<Longrightarrow> \<not> (isArray t \<and> k = ''length'')"
  by (cases t) (auto simp add: array_index_def canonical_numeral_def is_digit_def has_own_def)

lemma navigate_result_object:
  "is_object t \<Longrightarrow> navigate keys Inr t = Inr r \<Longrightarrow> is_object r"
  by (cases keys) (auto simp add: js_set_result_object split: sum.splits if_splits)

lemma navigate_nothing:
  "is_object t \<Longrightarrow> objects_along keys t \<Longrightarrow> navigate keys Inr t = Inr t"
proof (induction keys arbitrary: t)
  case Nil
  then show ?case by simp
next
  case (Cons key keys)
  then have child: "is_object (js_get t key)" and rest: "objects_along keys (js_get t key)"
    by (simp_all add: is_object_def)
  have "navigate keys Inr (js_get t key) = Inr (js_get t key)"
    using child rest by (rule Cons.IH)
  with Cons.prems child show ?case
    by (simp add: js_set_same is_object_def)
qed

lemma navigate_something:
  "is_object t \<Longrightarrow> \<not> objects_along keys t \<Longrightarrow> navigate keys Inr t \<noteq> Inr t"
proof (induction keys arbitrary: t)
  case Nil
  then show ?case by simp
next
  case (Cons key keys)
  show ?case
  proof (cases "\<not> truthy (js_get t key) \<or> typeof (js_get t key) \<noteq> TObject")
    case True
    show ?thesis
    proof
      assume eq: "navigate (key # keys) Inr t = Inr t"
      with True obtain t' c where made: "js_set t key (JObj []) = Inr t'"
        and walked: "navigate keys Inr (JObj []) = Inr c" and stored: "js_set t' key c = Inr t"
        by (auto split: sum.splits)
      have "\<not> (isArray t' \<and> key = ''length'')"
        using no_object_into_length [OF made] js_set_keeps_kind [OF made] by simp
      with stored have "js_get t key = c"
        by (rule js_get_js_set)
      moreover have "is_object c"
        using walked
        by (intro navigate_result_object [of "JObj []" keys c]) (simp_all add: is_object_def)
      ultimately show False
        using True by (simp add: is_object_def)
    qed
  next
    case False
    then have child: "is_object (js_get t key)" by (simp add: is_object_def)
    with Cons.prems(2) have "\<not> objects_along keys (js_get t key)"
      by (simp add: is_object_def)
    with child have neq: "navigate keys Inr (js_get t key) \<noteq> Inr (js_get t key)"
      by (rule Cons.IH)
    show ?thesis
    proof
      assume eq: "navigate (key # keys) Inr t = Inr t"
      with False obtain c where walked: "navigate keys Inr (js_get t key) = Inr c"
        and stored: "js_set t key c = Inr t"
        by (auto split: sum.splits)
      have "js_get t key = c"
        using stored no_object_under_length [OF child] by (rule js_get_js_set)
      with walked neq show False by simp
    qed
  qed
qed

lemma keys_of_path:
  "set (butlast (tl (split_dot f))) \<subseteq> set (split_dot f)" "last (split_dot f) \<in> set (split_dot f)"
proof -
  show "set (butlast (tl (split_dot f))) \<subseteq> set (split_dot f)"
  proof
    fix k assume "k \<in> set (butlast (tl (split_dot f)))"
    then have "k \<in> set (tl (split_dot f))" by (rule in_set_butlastD)
    then show "k \<in> set (split_dot f)" by (cases "split_dot f") auto
  qed
  show "last (split_dot f) \<in> set (split_dot f)"
    using split_dot_nonempty [of f] by simp
qed

lemma applySingleDelta_walk:
  assumes "js_get delta ''field'' = JStr f" and "''__proto__'' \<notin> set (split_dot f)"
  shows "applySingleDelta now base delta =
     navigate (butlast (tl (split_dot f)))
       (apply_op (js_get delta ''op'') (last (split_dot f)) (js_get delta ''value''))
       (if \<not> truthy base \<or> typeof base \<noteq> TObject then createDefaultMetadata now else base)"
proof -
  have "''__proto__'' \<notin> set (butlast (tl (split_dot f)))" "last (split_dot f) \<noteq> ''__proto__''"
    using assms(2) keys_of_path [of f] by auto
  with assms(1) show ?thesis
    by (simp add: applySingleDelta_def Let_def)
qed

lemma unknown_op_is_walk:
  assumes "js_get delta ''field'' = JStr f" and "''__proto__'' \<notin> set (split_dot f)"
    and "truthy base" and "typeof base = TObject"
    and "js_get delta ''op'' \<noteq> JStr ''set''" and "js_get delta ''op'' \<noteq> JStr ''add''"
    and "js_get delta ''op'' \<noteq> JStr ''remove''"
  shows "applySingleDelta now base delta = navigate (butlast (tl (split_dot f))) Inr base"
proof -
  have "apply_op (js_get delta ''op'') k v = Inr" for k v
    using assms(5-7) by (auto simp add: apply_op_def fun_eq_iff)
  with assms(3,4) show ?thesis
    by (simp add: applySingleDelta_walk [OF assms(1,2)])
qed

text \<open>Where the applier does raise: a delta without a \<^verbatim>\<open>field\<close>, and a walk through the
  \<^verbatim>\<open>length\<close> of an array, to which \<^verbatim>\<open>{}\<close> cannot be assigned.\<close>

lemma delta_without_field_raises: "applySingleDelta now base (JObj []) = Inl TypeError"
  by (simp add: applySingleDelta_def)

lemma walk_through_length_raises:
  "applySingleDelta now (JObj [(''tags'', JArr [JStr ''a''] [])])
     (JObj [(''op'', JStr ''set''), (''field'', JStr ''x.tags.length.y''), (''value'', JNum 1)])
   = Inl RangeError"
  by (simp add: applySingleDelta_def apply_op_def array_index_def canonical_numeral_def
      is_digit_def has_own_def)

text \<open>Where \<^verbatim>\<open>add\<close> raises: \<^verbatim>\<open>+=\<close> has to convert an object whose own property
  \<^verbatim>\<open>toString\<close> shadows the method, and \<^verbatim>\<open>push\<close> is shadowed by an own property of
  the array.\<close>

lemma add_unprintable_raises:
  "apply_op (JStr ''add'') ''count'' (JObj [(''toString'', JNum 1)]) (JObj [(''count'', JNum 1)])
     = Inl TypeError"
  by (simp add: apply_op_def js_add_def has_own_def)

lemma add_shadowed_push_raises:
  "apply_op (JStr ''add'') ''tags'' (JStr ''a'') (JObj [(''tags'', JArr [] [(''push'', JNum 1)])])
     = Inl TypeError"
  by (simp add: apply_op_def has_own_def)

text \<open>
  Claim C7, as the code has it. Take a delta whose \<^verbatim>\<open>field\<close> is a string with no segment
  \<^verbatim>\<open>__proto__\<close>. When no segment is \<^verbatim>\<open>length\<close> and \<^verbatim>\<open>op\<close> is not \<^verbatim>\<open>add\<close>
  (it is \<^verbatim>\<open>set\<close>, \<^verbatim>\<open>remove\<close> or unknown), \<^verbatim>\<open>applySingleDelta\<close> returns a snapshot
  and raises nothing. When \<^verbatim>\<open>op\<close> is none of \<^verbatim>\<open>set\<close>, \<^verbatim>\<open>add\<close>, \<^verbatim>\<open>remove\<close>, it
  returns the snapshot it was given, unchanged, exactly when every segment between the first
  and the last already holds an object or an array: the walk to the parent runs before the
  switch and puts an empty object where one is missing. A field of at most two segments
  has no such segment, so there the unknown operation changes nothing.\<close>

theorem applier_total_and_noop:
  assumes "js_get delta ''field'' = JStr f" and "''__proto__'' \<notin> set (split_dot f)"
  shows "(''length'' \<notin> set (split_dot f) \<and> js_get delta ''op'' \<noteq> JStr ''add''
           \<longrightarrow> (\<exists>r. applySingleDelta now base delta = Inr r))
       \<and> (js_get delta ''op'' \<noteq> JStr ''set'' \<and> js_get delta ''op'' \<noteq> JStr ''add''
            \<and> js_get delta ''op'' \<noteq> JStr ''remove'' \<and> truthy base \<and> typeof base = TObject
           \<longrightarrow> (applySingleDelta now base delta = Inr base
                 \<longleftrightarrow> objects_along (butlast (tl (split_dot f))) base))
       \<and> (length (split_dot f) \<le> 2 \<longrightarrow> objects_along (butlast (tl (split_dot f))) base)"
proof (intro conjI impI)
  assume a: "''length'' \<notin> set (split_dot f) \<and> js_get delta ''op'' \<noteq> JStr ''add''"
  define base' where
    "base' = (if \<not> truthy base \<or> typeof base \<noteq> TObject then createDefaultMetadata now else base)"
  have obj: "is_object base'"
    using default_is_object by (auto simp add: base'_def is_object_def)
  have last: "last (split_dot f) \<noteq> ''length''"
    using a keys_of_path(2) [of f] by auto
  have keys: "''length'' \<notin> set (butlast (tl (split_dot f)))"
    using a keys_of_path(1) [of f] by auto
  have op: "js_get delta ''op'' \<noteq> JStr ''add''"
    using a by simp
  have "\<exists>r. navigate (butlast (tl (split_dot f)))
             (apply_op (js_get delta ''op'') (last (split_dot f)) (js_get delta ''value'')) base'
           = Inr r \<and> is_object r"
    using obj keys apply_op_object [OF _ last op] by (rule navigate_object)
  then show "\<exists>r. applySingleDelta now base delta = Inr r"
    unfolding applySingleDelta_walk [OF assms] base'_def by blast
next
  assume a: "js_get delta ''op'' \<noteq> JStr ''set'' \<and> js_get delta ''op'' \<noteq> JStr ''add''
            \<and> js_get delta ''op'' \<noteq> JStr ''remove'' \<and> truthy base \<and> typeof base = TObject"
  then have walk: "applySingleDelta now base delta
      = navigate (butlast (tl (split_dot f))) Inr base"
    using assms by (intro unknown_op_is_walk) auto
  have obj: "is_object base"
    using a by (simp add: is_object_def)
  show "applySingleDelta now base delta = Inr base
          \<longleftrightarrow> objects_along (butlast (tl (split_dot f))) base"
    unfolding walk using navigate_nothing [OF obj] navigate_something [OF obj] by blast
next
  assume "length (split_dot f) \<le> 2"
  then have "butlast (tl (split_dot f)) = []"
    by (cases "split_dot f"; cases "tl (split_dot f)") auto
  then show "objects_along (butlast (tl (split_dot f))) base"
    by simp
qed

text \<open>The theorem at a delta with the unknown operation \<^verbatim>\<open>touch\<close> and two segments.\<close>

theorem applier_total_and_noop_witness:
  "(\<exists>r. applySingleDelta ''2026-01-20T08:00:00.000Z'' stored touch_short = Inr r)
   \<and> applySingleDelta ''2026-01-20T08:00:00.000Z'' stored touch_short = Inr stored"
proof -
  have "js_get touch_short ''field'' = JStr ''essential.lastSession''"
    by (simp add: touch_short_def)
  moreover have "''__proto__'' \<notin> set (split_dot ''essential.lastSession'')"
    by simp
  ultimately show ?thesis
    using applier_total_and_noop [of touch_short "''essential.lastSession''"
        "''2026-01-20T08:00:00.000Z''" stored]
    by (simp add: touch_short_def stored_def)
qed

text \<open>Claim C7 as stated fails twice. The unknown operation \<^verbatim>\<open>touch\<close> on the field
  \<^verbatim>\<open>essential.history.latest\<close> adds the property \<^verbatim>\<open>history\<close> to the snapshot. And
  the applier can fail: \<^verbatim>\<open>add\<close> of an object with an own property \<^verbatim>\<open>toString\<close> to
  the number \<^verbatim>\<open>version\<close> raises \<^verbatim>\<open>TypeError\<close> in \<^verbatim>\<open>+=\<close>.\<close>

theorem unknown_op_creates_object:
  "applySingleDelta ''2026-01-20T08:00:00.000Z'' stored touch
     = Inr (JObj [(''version'', JNum 3),
                  (''lastUpdated'', JStr ''2026-01-17T09:00:00.000Z''),
                  (''essential'',
                   JObj [(''lastSession'', JStr ''2026-01-17''),
                         (''stack'', JStr ''Node.js + npm''),
                         (''projects'', JArr [JStr ''iron-tracker''] []),
                         (''sessionCount'', JNum 5)]),
                  (''history'', JObj [])])
   \<and> applySingleDelta ''2026-01-20T08:00:00.000Z'' stored touch \<noteq> Inr stored
   \<and> js_get stored ''history'' = JUndefined
   \<and> applySingleDelta ''2026-01-20T08:00:00.000Z'' stored add_unprintable = Inl TypeError"
  by (simp add: model_defs stored_def touch_def add_unprintable_def)

text \<open>A field of two segments names a property of the snapshot itself: the loop starts at
  index 1 and ends before the last index, so it does not run, and the last segment is
  written on \<^verbatim>\<open>base\<close>. (\<^verbatim>\<open>updateMetadata\<close> walks the same way, but from
  \<^verbatim>\<open>this.metadata.essential\<close>.)\<close>

lemma two_segment_field_writes_root:
  assumes "split_dot f = [a, b]" and "b \<noteq> ''__proto__''"
    and "truthy base" and "typeof base = TObject"
    and "js_get delta ''field'' = JStr f" and "js_get delta ''op'' = JStr ''set''"
  shows "applySingleDelta now base delta = js_set base b (js_get delta ''value'')"
  using assms by (simp add: applySingleDelta_def apply_op_def)

text \<open>
  Claim C4. After \<^verbatim>\<open>add\<close> of \<^verbatim>\<open>iron-tracker\<close> to \<^verbatim>\<open>essential.projects\<close> and
  \<^verbatim>\<open>add\<close> of 1 to \<^verbatim>\<open>essential.sessionCount\<close> on a first run, the journal holds two
  lines and a load returns the project and the count 1 in the essential section. The
  journal does hold the two lines; but the walk of \<^verbatim>\<open>applySingleDelta\<close> starts at the
  snapshot with the second segment as the last key, so both deltas land on top-level
  properties and the essential section keeps no project and the count 0. The tests
  \<^verbatim>\<open>should apply single delta correctly\<close> and \<^verbatim>\<open>should apply add delta to arrays\<close>
  expect the essential section to change.\<close>

theorem scenario_misses_essential:
  "deltas_jsonl scenario =
     Some [delta_line ''2026-01-20T08:00:01.000Z'' ''add'' ''essential.projects''
             (JStr ''iron-tracker''),
           delta_line ''2026-01-20T08:00:02.000Z'' ''add'' ''essential.sessionCount'' (JNum 1)]
   \<and> fst (loadFoldValidate ''2026-01-20T08:00:03.000Z'' scenario)
       = Inr (JObj [(''version'', JNum 3),
                    (''lastUpdated'', JStr ''2026-01-20T08:00:03.000Z''),
                    (''essential'',
                     JObj [(''lastSession'', JStr ''Unknown''),
                           (''stack'', JStr ''Node.js + npm + Vite + TypeScript + TanStack''),
                           (''projects'', JArr [] []),
                           (''sessionCount'', JNum 0)]),
                    (''projects'', JStr ''iron-tracker''),
                    (''sessionCount'', JNum 1)])"
  by (simp add: model_defs scenario_def)

section \<open>A journal that cannot be replayed\<close>



lemma applyDeltas_no_journal:
  "deltas_jsonl s = None \<Longrightarrow> applyDeltasToMetadata now s b = (b, s)"
  by (simp add: applyDeltasToMetadata_def)






section \<open>The compaction threshold\<close>

lemma dropWhile_blank_snoc:
  "\<not> is_blank l \<Longrightarrow> dropWhile is_blank (ls @ [l]) = dropWhile is_blank ls @ [l]"
  by (induction ls) auto

lemma trim_lines_snoc:
  "\<not> is_blank l \<Longrightarrow> trim_lines (raw @ [l]) = dropWhile is_blank raw @ [l]"
  by (simp add: trim_lines_def dropWhile_blank_snoc)

lemma dropWhile_blank_parsed: "list_all parses ls \<Longrightarrow> dropWhile is_blank ls = ls"
  by (cases ls; cases "hd ls") auto

lemma saveDelta_unfold:
  "saveDelta now operation field val s =
     (if 50 \<le> length (trim_lines (journal s @ [delta_line now operation field val]))
      then compactDeltas now (say CompactingDeltas (appended now operation field val s))
      else appended now operation field val s)"
  by (simp add: saveDelta_def checkAndCompactDeltas_def appended_def journal_def say_def
      trim_lines_snoc delta_line_def)

lemma saveDelta_below:
  assumes "list_all parses (journal s)" and "length (journal s) < 49"
  shows "saveDelta now operation field val s = appended now operation field val s"
  using assms
  by (simp add: saveDelta_unfold trim_lines_snoc delta_line_def dropWhile_blank_parsed)

lemma saveDeltas_below:
  "deltas_jsonl s = Some ls \<Longrightarrow> list_all parses ls \<Longrightarrow> length ls + length calls < 50 \<Longrightarrow>
   saveDeltas calls s =
     s\<lparr>deltas_jsonl := Some (ls @ map saved_line calls),
        console := console s @ map saved_message calls\<rparr>"
proof (induction calls arbitrary: s ls)
  case Nil
  then show ?case by simp
next
  case (Cons c calls)
  obtain now operation field val where c: "c = (now, operation, field, val)"
    by (cases c) auto
  have j: "journal s = ls"
    using Cons.prems(1) by (simp add: journal_def)
  have step: "saveDelta now operation field val s = appended now operation field val s"
    using Cons.prems j by (intro saveDelta_below) auto
  have "saveDeltas calls (appended now operation field val s) =
      (appended now operation field val s)
        \<lparr>deltas_jsonl := Some ((ls @ [delta_line now operation field val]) @ map saved_line calls),
         console := console (appended now operation field val s) @ map saved_message calls\<rparr>"
    using Cons.prems j
    by (intro Cons.IH) (auto simp add: appended_def say_def delta_line_def)
  then show ?case
    by (simp add: c step appended_def say_def saved_line_def saved_message_def)
qed

text \<open>
  Claim C9. \<^verbatim>\<open>saveDelta\<close> counts the lines of the journal after every append and runs
  \<^verbatim>\<open>compactDeltas\<close> before it returns exactly when there are 50 or more. Starting without
  a journal, 49 calls only append (the snapshot files are as before and each call prints
  its \<^verbatim>\<open>Delta saved\<close> line, nothing else); the 50th call compacts.\<close>

theorem compaction_threshold:
  "saveDelta now operation field val s =
     (if 50 \<le> length (trim_lines (journal s @ [delta_line now operation field val]))
      then compactDeltas now (say CompactingDeltas (appended now operation field val s))
      else appended now operation field val s)
   \<and> (deltas_jsonl s = None \<and> length calls = 49 \<longrightarrow>
        saveDeltas calls s =
          s\<lparr>deltas_jsonl := Some (map saved_line calls),
             console := console s @ map saved_message calls\<rparr>
        \<and> saveDelta now operation field val (saveDeltas calls s) =
            compactDeltas now
              (say CompactingDeltas (appended now operation field val (saveDeltas calls s))))"
proof (intro conjI impI)
  show "saveDelta now operation field val s =
     (if 50 \<le> length (trim_lines (journal s @ [delta_line now operation field val]))
      then compactDeltas now (say CompactingDeltas (appended now operation field val s))
      else appended now operation field val s)"
    by (rule saveDelta_unfold)
next
  assume a: "deltas_jsonl s = None \<and> length calls = 49"
  then obtain c rest where calls: "calls = c # rest" and rest: "length rest = 48"
    by (cases calls) auto
  obtain t operation' field' val' where c: "c = (t, operation', field', val')"
    by (cases c) auto
  have first: "saveDelta t operation' field' val' s = appended t operation' field' val' s"
    using a by (intro saveDelta_below) (auto simp add: journal_def)
  have "saveDeltas rest (appended t operation' field' val' s) =
      (appended t operation' field' val' s)
        \<lparr>deltas_jsonl := Some ([delta_line t operation' field' val'] @ map saved_line rest),
         console := console (appended t operation' field' val' s) @ map saved_message rest\<rparr>"
    using a rest
    by (intro saveDeltas_below) (auto simp add: appended_def say_def journal_def delta_line_def)
  then show run: "saveDeltas calls s =
          s\<lparr>deltas_jsonl := Some (map saved_line calls),
             console := console s @ map saved_message calls\<rparr>"
    using a
    by (simp add: calls c first appended_def say_def journal_def saved_line_def saved_message_def)
  have "journal (saveDeltas calls s) = map saved_line calls"
    by (simp add: run journal_def)
  moreover have "\<not> is_blank (delta_line now operation field val)"
    by (simp add: delta_line_def)
  moreover have "dropWhile is_blank (map saved_line calls) = map saved_line calls"
    by (intro dropWhile_blank_parsed)
       (auto simp add: list_all_iff saved_line_def delta_line_def split: prod.splits)
  ultimately show "saveDelta now operation field val (saveDeltas calls s) =
            compactDeltas now
              (say CompactingDeltas (appended now operation field val (saveDeltas calls s)))"
    using a by (simp add: saveDelta_unfold trim_lines_snoc)
qed

text \<open>The theorem on a first run: 49 equal updates, then the 50th.\<close>

theorem compaction_threshold_witness:
  "saveDeltas
     (replicate 49 (''2026-01-20T08:00:00.000Z'', ''set'', ''essential.stack'', JStr ''Deno''))
     fresh
     = fresh\<lparr>deltas_jsonl := Some (replicate 49
                  (delta_line ''2026-01-20T08:00:00.000Z'' ''set'' ''essential.stack''
                     (JStr ''Deno''))),
             console := replicate 49 (DeltaSaved ''set'' ''essential.stack'')\<rparr>
   \<and> saveDelta ''2026-01-20T09:00:00.000Z'' ''set'' ''essential.stack'' (JStr ''Bun'')
        (saveDeltas
           (replicate 49 (''2026-01-20T08:00:00.000Z'', ''set'', ''essential.stack'', JStr ''Deno''))
           fresh)
     = compactDeltas ''2026-01-20T09:00:00.000Z''
         (say CompactingDeltas
            (appended ''2026-01-20T09:00:00.000Z'' ''set'' ''essential.stack'' (JStr ''Bun'')
               (saveDeltas
                  (replicate 49
                     (''2026-01-20T08:00:00.000Z'', ''set'', ''essential.stack'', JStr ''Deno''))
                  fresh)))"
proof (intro conjI)
  let ?c = "(''2026-01-20T08:00:00.000Z'', ''set'', ''essential.stack'', JStr ''Deno'')"
  have start: "deltas_jsonl fresh = None \<and> length (replicate 49 ?c) = 49"
    by (simp add: fresh_def)
  from compaction_threshold [of "''2026-01-20T09:00:00.000Z''" "''set''" "''essential.stack''"
      "JStr ''Bun''" fresh "replicate 49 ?c"] start
  have run: "saveDeltas (replicate 49 ?c) fresh =
      fresh\<lparr>deltas_jsonl := Some (map saved_line (replicate 49 ?c)),
            console := console fresh @ map saved_message (replicate 49 ?c)\<rparr>"
    and fiftieth: "saveDelta ''2026-01-20T09:00:00.000Z'' ''set'' ''essential.stack'' (JStr ''Bun'')
        (saveDeltas (replicate 49 ?c) fresh)
      = compactDeltas ''2026-01-20T09:00:00.000Z''
          (say CompactingDeltas
             (appended ''2026-01-20T09:00:00.000Z'' ''set'' ''essential.stack'' (JStr ''Bun'')
                (saveDeltas (replicate 49 ?c) fresh)))"
    by blast+
  show "saveDeltas (replicate 49 ?c) fresh
     = fresh\<lparr>deltas_jsonl := Some (replicate 49
                  (delta_line ''2026-01-20T08:00:00.000Z'' ''set'' ''essential.stack''
                     (JStr ''Deno''))),
             console := replicate 49 (DeltaSaved ''set'' ''essential.stack'')\<rparr>"
    using run by (simp add: fresh_def saved_line_def saved_message_def)
  show "saveDelta ''2026-01-20T09:00:00.000Z'' ''set'' ''essential.stack'' (JStr ''Bun'')
        (saveDeltas (replicate 49 ?c) fresh)
     = compactDeltas ''2026-01-20T09:00:00.000Z''
         (say CompactingDeltas
            (appended ''2026-01-20T09:00:00.000Z'' ''set'' ''essential.stack'' (JStr ''Bun'')
               (saveDeltas (replicate 49 ?c) fresh)))"
    by (rule fiftieth)
qed

section \<open>Compaction\<close>

text \<open>Where a conversion to a string is followed, the only exception it raises is
  \<^verbatim>\<open>TypeError\<close>; so it is with \<^verbatim>\<open>+\<close>.\<close>

lemma js_to_string_errors:
  "js_to_string v = Inl e \<Longrightarrow> e = TypeError \<or> e = Unmodelled"
  "js_elem_strings vs = Inl e \<Longrightarrow> e = TypeError \<or> e = Unmodelled"
  by (induction v and vs rule: js_to_string_js_elem_strings.induct)
     (auto split: if_splits sum.splits)

lemma js_add_errors: "js_add a b = Inl e \<Longrightarrow> e = TypeError \<or> e = Unmodelled"
proof -
  have prim: "to_primitive x = Inl e \<Longrightarrow> e = TypeError \<or> e = Unmodelled" for x
    using js_to_string_errors(1) [of x e] by (cases x) (auto split: sum.splits)
  assume "js_add a b = Inl e"
  then show ?thesis
    using prim [of a] prim [of b] js_to_string_errors(1)
    by (auto simp add: js_add_def split: sum.splits if_splits option.splits)
qed

text \<open>\<^verbatim>\<open>(sessionCount || 0) + 1\<close> is a number or a string, never \<^verbatim>\<open>NaN\<close>.\<close>

lemma bumped_count_json:
  assumes "js_add (if truthy sc then sc else JNum 0) (JNum 1) = Inr c"
  shows "json_value c = c \<and> c \<noteq> JUndefined"
  using assms
  by (cases sc) (auto simp add: js_add_def split: sum.splits if_splits)

text \<open>A snapshot that passes the validator and is unchanged by a trip through JSON text is
  a plain object whose essential section is a plain object.\<close>

lemma valid_json_shape:
  assumes "passes_validation F" and "json_value F = F"
  obtains ps eps where "F = JObj ps" "json_props ps = ps"
    "prop_get ps ''essential'' = JObj eps" "json_props eps = eps"
proof -
  from assms(1) have t: "truthy F" "typeof F = TObject"
    and v: "truthy (js_get F ''version'')"
    and e: "truthy (js_get F ''essential'')" "typeof (js_get F ''essential'') = TObject"
    and ee: "essential_errors (js_get F ''essential'') = []"
    by (auto simp add: passes_validation_def validation_errors_def split: if_splits)
  from t v assms(2) obtain ps where F: "F = JObj ps" and ps: "json_props ps = ps"
    by (cases F) (auto simp add: array_index_schema_keys)
  from ee have ls: "truthy (js_get (js_get F ''essential'') ''lastSession'')"
    by (auto simp add: essential_errors_def split: if_splits)
  have "json_value (prop_get ps ''essential'') = prop_get ps ''essential''"
    using ps e F by (intro json_props_get) auto
  with e ls F obtain eps where "prop_get ps ''essential'' = JObj eps" "json_props eps = eps"
    by (cases "prop_get ps ''essential''") (auto simp add: array_index_schema_keys)
  with F ps show ?thesis using that by blast
qed

text \<open>The stamping of a valid snapshot: only the increment of the session count can
  raise.\<close>

lemma finalize_unfold:
  assumes "F = JObj ps" and "prop_get ps ''essential'' = JObj eps"
  shows "finalize now F =
     (case js_add (if truthy (prop_get eps ''sessionCount'')
                   then prop_get eps ''sessionCount'' else JNum 0) (JNum 1) of
        Inl e \<Rightarrow> Inl e
      | Inr c \<Rightarrow>
          Inr (JObj (prop_set ''essential'' (JObj (prop_set ''sessionCount'' c eps))
                       (prop_set ''lastUpdated'' (JStr now) ps))))"
  using assms by (simp add: finalize_def prop_get_set split: sum.splits)

lemma finalize_raises:
  assumes "passes_validation F" and "json_value F = F"
  shows "finalize now F = Inl e \<longleftrightarrow>
     js_add (if truthy (js_get (js_get F ''essential'') ''sessionCount'')
             then js_get (js_get F ''essential'') ''sessionCount'' else JNum 0) (JNum 1) = Inl e"
proof -
  obtain ps eps where F: "F = JObj ps" and E: "prop_get ps ''essential'' = JObj eps"
    using assms by (rule valid_json_shape)
  show ?thesis
    unfolding finalize_unfold [OF F E] by (simp add: F E split: sum.splits)
qed

lemma finalize_valid:
  assumes "passes_validation F" and "json_value F = F" and "now \<noteq> []"
    and "finalize now F = Inr G"
  shows "json_value G = G \<and> passes_validation G"
proof -
  obtain ps eps where F: "F = JObj ps" and ps: "json_props ps = ps"
    and E: "prop_get ps ''essential'' = JObj eps" and eps: "json_props eps = eps"
    using assms(1,2) by (rule valid_json_shape)
  from assms(4) obtain c where
    add: "js_add (if truthy (prop_get eps ''sessionCount'')
                  then prop_get eps ''sessionCount'' else JNum 0) (JNum 1) = Inr c"
    and G: "G = JObj (prop_set ''essential'' (JObj (prop_set ''sessionCount'' c eps))
                       (prop_set ''lastUpdated'' (JStr now) ps))"
    unfolding finalize_unfold [OF F E] by (auto split: sum.splits)
  have c: "json_value c = c" "c \<noteq> JUndefined"
    using bumped_count_json [OF add] by blast+
  have eps': "json_props (prop_set ''sessionCount'' c eps) = prop_set ''sessionCount'' c eps"
    using eps c by (intro json_props_set) auto
  have "json_props (prop_set ''lastUpdated'' (JStr now) ps) = prop_set ''lastUpdated'' (JStr now) ps"
    using ps by (intro json_props_set) auto
  then have clean: "json_value G = G"
    unfolding G using eps' by (simp add: json_props_set)
  from assms(1) have
      "truthy (prop_get ps ''version'')" "typeof (prop_get ps ''version'') = TNumber"
      "truthy (prop_get eps ''lastSession'')" "typeof (prop_get eps ''lastSession'') = TString"
      "truthy (prop_get eps ''stack'')" "typeof (prop_get eps ''stack'') = TString"
      "isArray (prop_get eps ''projects'')"
    by (auto simp add: passes_validation_def validation_errors_def essential_errors_def F E
        split: if_splits)
  then have "passes_validation G"
    using assms(3)
    by (simp add: passes_validation_def validation_errors_def essential_errors_def
        G prop_get_set)
  with clean show ?thesis by blast
qed

lemma finalize_lookups:
  assumes "passes_validation F" and "json_value F = F" and "finalize now F = Inr G"
  shows "js_get G ''lastUpdated'' = JStr now
       \<and> js_add (if truthy (js_get (js_get F ''essential'') ''sessionCount'')
                 then js_get (js_get F ''essential'') ''sessionCount'' else JNum 0) (JNum 1)
           = Inr (js_get (js_get G ''essential'') ''sessionCount'')
       \<and> (\<forall>k. k \<noteq> ''lastUpdated'' \<and> k \<noteq> ''essential'' \<longrightarrow> js_get G k = js_get F k)
       \<and> (\<forall>k. k \<noteq> ''sessionCount'' \<longrightarrow>
             js_get (js_get G ''essential'') k = js_get (js_get F ''essential'') k)"
proof -
  obtain ps eps where F: "F = JObj ps" and E: "prop_get ps ''essential'' = JObj eps"
    using assms(1,2) by (rule valid_json_shape)
  from assms(3) obtain c where
    add: "js_add (if truthy (prop_get eps ''sessionCount'')
                  then prop_get eps ''sessionCount'' else JNum 0) (JNum 1) = Inr c"
    and G: "G = JObj (prop_set ''essential'' (JObj (prop_set ''sessionCount'' c eps))
                       (prop_set ''lastUpdated'' (JStr now) ps))"
    unfolding finalize_unfold [OF F E] by (auto split: sum.splits)
  show ?thesis
    using add by (auto simp add: G F E prop_get_set split: if_splits)
qed

lemma applyDeltas_files:
  "metadata_gz (snd (applyDeltasToMetadata now s b)) = metadata_gz s"
  "metadata_json (snd (applyDeltasToMetadata now s b)) = metadata_json s"
  "deltas_jsonl (snd (applyDeltasToMetadata now s b)) = deltas_jsonl s"
  by (auto simp add: applyDeltasToMetadata_def Let_def say_def split: option.splits sum.splits)

lemma applyDeltas_value:
  "deltas_jsonl s = deltas_jsonl s' \<Longrightarrow>
   fst (applyDeltasToMetadata now s b) = fst (applyDeltasToMetadata now s' b)"
  by (auto simp add: applyDeltasToMetadata_def Let_def split: option.splits sum.splits)

lemma loadFoldValidate_value:
  "fst (loadFoldValidate now s) = validateMetadata now (folded now s)"
  by (simp add: loadFoldValidate_def folded_def split_beta)

lemma validate_valid: "passes_validation F \<Longrightarrow> validateMetadata now F = Inr F"
  by (simp add: passes_validation_def validateMetadata_def)

text \<open>A load reads the files: two stores with the same files load the same snapshot.\<close>

lemma loadFoldValidate_files:
  assumes "metadata_gz s' = metadata_gz s" and "metadata_json s' = metadata_json s"
    and "deltas_jsonl s' = deltas_jsonl s"
  shows "fst (loadFoldValidate now s') = fst (loadFoldValidate now s)"
proof -
  have v: "fst (loadMetadata s') = fst (loadMetadata s)"
    using assms(1,2) by (simp add: loadMetadata_def split: mfile.splits)
  have "deltas_jsonl (snd (loadMetadata s')) = deltas_jsonl s'"
       "deltas_jsonl (snd (loadMetadata s)) = deltas_jsonl s"
    by (simp_all add: loadMetadata_def say_def split: mfile.splits)
  then have "folded now s' = folded now s"
    unfolding folded_def v using assms(3)
    by (intro applyDeltas_value) simp
  then show ?thesis
    by (simp add: loadFoldValidate_value)
qed

text \<open>With no compressed snapshot, \<^verbatim>\<open>initialize\<close> and \<^verbatim>\<open>compactDeltas\<close> replay the
  journal over the same plain snapshot.\<close>

lemma compaction_folds_the_same:
  assumes "metadata_gz s = Absent" and "metadata_json s = Holds v"
  shows "compactionFold now s = folded now s"
proof -
  from assms have "fst (loadMetadata s) = v"
      "deltas_jsonl (snd (loadMetadata s)) = deltas_jsonl s"
    by (simp_all add: loadMetadata_def say_def)
  then show ?thesis
    using applyDeltas_value [of "snd (loadMetadata s)" s now v]
    by (simp add: folded_def compactionFold_def assms(2))
qed

text \<open>What a compaction leaves on disk once the stamping succeeded. The snapshot is written
  before the journal is removed, so it is there even when \<^verbatim>\<open>unlinkSync\<close> finds no
  journal. When the stamping raises, nothing is written and the journal stays.\<close>

lemma compaction_writes:
  assumes "metadata_json s \<noteq> Unreadable" and "finalize now (compactionFold now s) = Inr G"
  shows "metadata_json (compactDeltas now s) = Holds (json_value G)"
    and "metadata_gz (compactDeltas now s) = metadata_gz s"
    and "deltas_jsonl (compactDeltas now s) = None"
  using assms
    applyDeltas_files [of now s
      "case metadata_json s of Holds v \<Rightarrow> v | _ \<Rightarrow> createDefaultMetadata now"]
  by (auto simp add: compactDeltas_def compactionFold_def Let_def say_def split_beta
      split: mfile.splits option.splits)

lemma compaction_raises:
  assumes "finalize now (compactionFold now s) = Inl e"
  shows "metadata_json (compactDeltas now s) = metadata_json s"
    and "metadata_gz (compactDeltas now s) = metadata_gz s"
    and "deltas_jsonl (compactDeltas now s) = deltas_jsonl s"
  using assms
    applyDeltas_files [of now s
      "case metadata_json s of Holds v \<Rightarrow> v | _ \<Rightarrow> createDefaultMetadata now"]
  by (auto simp add: compactDeltas_def compactionFold_def Let_def say_def split_beta
      split: mfile.splits option.splits)

text \<open>\<^verbatim>\<open>compactDeltas\<close> never writes the compressed snapshot, which
  \<^verbatim>\<open>loadMetadata\<close> prefers: where one exists, a load after compaction still reads
  it.\<close>

lemma compaction_leaves_compressed: "metadata_gz (compactDeltas now s) = metadata_gz s"
proof -
  have "metadata_gz (snd (applyDeltasToMetadata now s b)) = metadata_gz s" for b
    by (rule applyDeltas_files)
  then show ?thesis
    by (auto simp add: compactDeltas_def Let_def say_def split_beta
        split: mfile.splits option.splits sum.splits)
qed

lemma compressed_snapshot_shadows_compaction:
  assumes "metadata_gz s = Holds v"
  shows "fst (loadMetadata (compactDeltas now s)) = v"
  using assms compaction_leaves_compressed [of now s] by (simp add: loadMetadata_def)

text \<open>
  Claim C2, as the code has it. \<^verbatim>\<open>compactDeltas\<close> neither validates nor repairs what it
  writes. Let the plain snapshot file hold an object or an array (no default snapshot is
  made then), and let the snapshot that the replay yields pass the validator and be
  unchanged by a trip through JSON text. Then whatever the compaction writes passes the
  validator: the time stamp it sets is a non-empty string, and the session count is not
  checked. It writes unless the increment of the session count raises \<^verbatim>\<open>TypeError\<close>,
  which leaves the snapshot file and the journal as they were. The last two hypotheses keep
  to the runs that the model follows: neither the replay nor the increment yields
  \<open>Unmodelled\<close>.\<close>

theorem compaction_keeps_validity:
  assumes "metadata_json s = Holds v" and "is_object v" and "now \<noteq> []"
    and "passes_validation (compactionFold now s)"
    and "json_value (compactionFold now s) = compactionFold now s"
    and "replay now s v \<noteq> Inl Unmodelled"
    and "finalize now (compactionFold now s) \<noteq> Inl Unmodelled"
  shows "(\<forall>G. finalize now (compactionFold now s) = Inr G \<longrightarrow>
            metadata_json (compactDeltas now s) = Holds G \<and> passes_validation G
            \<and> deltas_jsonl (compactDeltas now s) = None)
       \<and> (\<forall>e. finalize now (compactionFold now s) = Inl e \<longrightarrow>
            e = TypeError
            \<and> js_add (if truthy (js_get (js_get (compactionFold now s) ''essential'')
                                   ''sessionCount'')
                       then js_get (js_get (compactionFold now s) ''essential'') ''sessionCount''
                       else JNum 0) (JNum 1) = Inl TypeError
            \<and> metadata_json (compactDeltas now s) = metadata_json s
            \<and> deltas_jsonl (compactDeltas now s) = deltas_jsonl s)"
proof (intro conjI allI impI)
  fix G assume G: "finalize now (compactionFold now s) = Inr G"
  have ok: "json_value G = G" "passes_validation G"
    using finalize_valid [OF assms(4,5,3) G] by blast+
  have readable: "metadata_json s \<noteq> Unreadable"
    using assms(1) by simp
  show "metadata_json (compactDeltas now s) = Holds G"
    using compaction_writes(1) [OF readable G] ok(1) by simp
  show "passes_validation G"
    by (rule ok(2))
  show "deltas_jsonl (compactDeltas now s) = None"
    by (rule compaction_writes(3) [OF readable G])
next
  fix e assume e: "finalize now (compactionFold now s) = Inl e"
  then have add: "js_add (if truthy (js_get (js_get (compactionFold now s) ''essential'')
                                   ''sessionCount'')
                       then js_get (js_get (compactionFold now s) ''essential'') ''sessionCount''
                       else JNum 0) (JNum 1) = Inl e"
    using finalize_raises [OF assms(4,5)] by simp
  from e assms(7) have "e \<noteq> Unmodelled" by auto
  with js_add_errors [OF add] show "e = TypeError" by simp
  with add show "js_add (if truthy (js_get (js_get (compactionFold now s) ''essential'')
                                   ''sessionCount'')
                       then js_get (js_get (compactionFold now s) ''essential'') ''sessionCount''
                       else JNum 0) (JNum 1) = Inl TypeError"
    by simp
  show "metadata_json (compactDeltas now s) = metadata_json s"
    by (rule compaction_raises(1) [OF e])
  show "deltas_jsonl (compactDeltas now s) = deltas_jsonl s"
    by (rule compaction_raises(3) [OF e])
qed

text \<open>The theorem at the snapshot with session count 5 and one delta pending, where the
  compaction writes, and at the snapshot whose session count is an object with an own
  property \<^verbatim>\<open>toString\<close>, where it raises.\<close>

theorem compaction_keeps_validity_witness:
  "(\<exists>G. metadata_json (compactDeltas ''2026-01-20T08:00:00.000Z'' pending) = Holds G
        \<and> passes_validation G
        \<and> js_get (js_get G ''essential'') ''sessionCount'' = JNum 6)
   \<and> finalize ''2026-01-20T08:00:00.000Z'' (compactionFold ''2026-01-20T08:00:00.000Z'' jammed)
       = Inl TypeError
   \<and> metadata_json (compactDeltas ''2026-01-20T08:00:00.000Z'' jammed) = Holds unprintable
   \<and> deltas_jsonl (compactDeltas ''2026-01-20T08:00:00.000Z'' jammed)
       = Some [Parsed set_stack]"
proof -
  let ?t = "''2026-01-20T08:00:00.000Z''"
  have fold: "compactionFold ?t pending
      = JObj [(''version'', JNum 3),
              (''lastUpdated'', JStr ''2026-01-17T09:00:00.000Z''),
              (''essential'',
               JObj [(''lastSession'', JStr ''2026-01-17''),
                     (''stack'', JStr ''Node.js + npm''),
                     (''projects'', JArr [JStr ''iron-tracker''] []),
                     (''sessionCount'', JNum 5)]),
              (''stack'', JStr ''Deno'')]"
    by (simp add: model_defs pending_def stored_def set_stack_def)
  let ?G = "JObj [(''version'', JNum 3),
              (''lastUpdated'', JStr ?t),
              (''essential'',
               JObj [(''lastSession'', JStr ''2026-01-17''),
                     (''stack'', JStr ''Node.js + npm''),
                     (''projects'', JArr [JStr ''iron-tracker''] []),
                     (''sessionCount'', JNum 6)]),
              (''stack'', JStr ''Deno'')]"
  have fin: "finalize ?t (compactionFold ?t pending) = Inr ?G"
    unfolding fold by (simp add: finalize_def js_add_def safe_integer_def)
  have h1: "metadata_json pending = Holds stored"
    by (simp add: pending_def fresh_def)
  have h2: "is_object stored"
    by (simp add: stored_def is_object_def)
  have h3: "?t \<noteq> []"
    by simp
  have h4: "passes_validation (compactionFold ?t pending)"
    unfolding fold by (simp add: passes_validation_def validation_errors_def essential_errors_def)
  have h5: "json_value (compactionFold ?t pending) = compactionFold ?t pending"
    unfolding fold by simp
  have h6: "replay ?t pending stored \<noteq> Inl Unmodelled"
    by (simp add: model_defs pending_def stored_def set_stack_def)
  have h7: "finalize ?t (compactionFold ?t pending) \<noteq> Inl Unmodelled"
    unfolding fin by simp
  have "metadata_json (compactDeltas ?t pending) = Holds ?G \<and> passes_validation ?G"
    using compaction_keeps_validity [OF h1 h2 h3 h4 h5 h6 h7] fin by blast
  moreover have "js_get (js_get ?G ''essential'') ''sessionCount'' = JNum 6"
    by simp
  ultimately have first: "\<exists>G. metadata_json (compactDeltas ?t pending) = Holds G
        \<and> passes_validation G
        \<and> js_get (js_get G ''essential'') ''sessionCount'' = JNum 6"
    by blast
  have fold': "compactionFold ?t jammed
      = JObj [(''version'', JNum 3),
              (''lastUpdated'', JStr ''2026-01-17T09:00:00.000Z''),
              (''essential'',
               JObj [(''lastSession'', JStr ''2026-01-17''),
                     (''stack'', JStr ''Node.js + npm''),
                     (''projects'', JArr [] []),
                     (''sessionCount'', JObj [(''toString'', JNum 1)])]),
              (''stack'', JStr ''Deno'')]"
    by (simp add: model_defs jammed_def unprintable_def set_stack_def)
  have fin': "finalize ?t (compactionFold ?t jammed) = Inl TypeError"
    unfolding fold' by (simp add: finalize_def js_add_def has_own_def)
  have j1: "metadata_json jammed = Holds unprintable"
    by (simp add: jammed_def fresh_def)
  have j2: "is_object unprintable"
    by (simp add: unprintable_def is_object_def)
  have j4: "passes_validation (compactionFold ?t jammed)"
    unfolding fold' by (simp add: passes_validation_def validation_errors_def essential_errors_def)
  have j5: "json_value (compactionFold ?t jammed) = compactionFold ?t jammed"
    unfolding fold' by simp
  have j6: "replay ?t jammed unprintable \<noteq> Inl Unmodelled"
    by (simp add: model_defs jammed_def unprintable_def set_stack_def)
  have j7: "finalize ?t (compactionFold ?t jammed) \<noteq> Inl Unmodelled"
    unfolding fin' by simp
  have second:
      "metadata_json (compactDeltas ?t jammed) = metadata_json jammed
       \<and> deltas_jsonl (compactDeltas ?t jammed) = deltas_jsonl jammed"
    using compaction_keeps_validity [OF j1 j2 h3 j4 j5 j6 j7] fin' by blast
  have "deltas_jsonl jammed = Some [Parsed set_stack]"
    by (simp add: jammed_def fresh_def)
  with first second fin' j1 show ?thesis
    by simp
qed

text \<open>Claim C2 as stated fails: with \<^verbatim>\<open>{}\<close> on disk and one delta pending, compaction
  writes a snapshot with no version and no essential section.\<close>

theorem compaction_persists_invalid:
  "metadata_json (compactDeltas ''2026-01-20T08:00:00.000Z'' bare)
     = Holds (JObj [(''stack'', JStr ''Deno''),
                    (''lastUpdated'', JStr ''2026-01-20T08:00:00.000Z'')])
   \<and> \<not> passes_validation
         (JObj [(''stack'', JStr ''Deno''),
                (''lastUpdated'', JStr ''2026-01-20T08:00:00.000Z'')])"
  by (simp add: model_defs bare_def set_stack_def)

text \<open>
  Claim C1, as the code has it. Let no compressed snapshot exist, let the plain snapshot
  file hold an object or an array, and let the load before compaction need no repair: the
  replayed snapshot passes the validator and is unchanged by a trip through JSON text. Then
  that load returns the replayed snapshot. When the compaction stamps it, a load after the
  compaction returns the stamped snapshot: \<^verbatim>\<open>lastUpdated\<close> is the time of the
  compaction, \<^verbatim>\<open>essential.sessionCount\<close> is \<^verbatim>\<open>(sessionCount || 0) + 1\<close>, and every
  other property of the snapshot and of its essential section reads as before. When the
  increment raises \<^verbatim>\<open>TypeError\<close>, the compaction writes nothing and a load after it
  returns what a load before it returns. The last two hypotheses keep to the runs that the
  model follows: neither the replay nor the increment yields \<open>Unmodelled\<close>.\<close>

theorem compaction_then_load:
  assumes "metadata_gz s = Absent" and "metadata_json s = Holds v" and "is_object v"
    and "now \<noteq> []"
    and "passes_validation (folded now s)" and "json_value (folded now s) = folded now s"
    and "replay now s v \<noteq> Inl Unmodelled"
    and "finalize now (folded now s) \<noteq> Inl Unmodelled"
  shows "fst (loadFoldValidate now s) = Inr (folded now s)
       \<and> (\<forall>G. finalize now (folded now s) = Inr G \<longrightarrow>
             fst (loadFoldValidate now' (compactDeltas now s)) = Inr G
             \<and> js_get G ''lastUpdated'' = JStr now
             \<and> js_add (if truthy (js_get (js_get (folded now s) ''essential'') ''sessionCount'')
                        then js_get (js_get (folded now s) ''essential'') ''sessionCount''
                        else JNum 0) (JNum 1)
                 = Inr (js_get (js_get G ''essential'') ''sessionCount'')
             \<and> (\<forall>k. k \<noteq> ''lastUpdated'' \<and> k \<noteq> ''essential'' \<longrightarrow>
                   js_get G k = js_get (folded now s) k)
             \<and> (\<forall>k. k \<noteq> ''sessionCount'' \<longrightarrow>
                   js_get (js_get G ''essential'') k
                     = js_get (js_get (folded now s) ''essential'') k))
       \<and> (\<forall>e. finalize now (folded now s) = Inl e \<longrightarrow>
             e = TypeError
             \<and> js_add (if truthy (js_get (js_get (folded now s) ''essential'') ''sessionCount'')
                        then js_get (js_get (folded now s) ''essential'') ''sessionCount''
                        else JNum 0) (JNum 1) = Inl TypeError
             \<and> fst (loadFoldValidate now' (compactDeltas now s))
                 = fst (loadFoldValidate now' s))"
proof (intro conjI allI impI)
  show "fst (loadFoldValidate now s) = Inr (folded now s)"
    using assms(5) by (simp add: loadFoldValidate_value validate_valid)
next
  fix G assume fin: "finalize now (folded now s) = Inr G"
  have same: "compactionFold now s = folded now s"
    using assms(1,2) by (rule compaction_folds_the_same)
  have G: "json_value G = G" "passes_validation G"
    using finalize_valid [OF assms(5,6,4) fin] by blast+
  have readable: "metadata_json s \<noteq> Unreadable"
    using assms(2) by simp
  have written: "metadata_json (compactDeltas now s) = Holds G"
      "metadata_gz (compactDeltas now s) = Absent"
      "deltas_jsonl (compactDeltas now s) = None"
    using compaction_writes [OF readable, of now G] fin G(1) same assms(1) by simp_all
  have "loadFoldValidate now' (compactDeltas now s)
          = (validateMetadata now' G, say LoadedFastPath (compactDeltas now s))"
    using written
    by (simp add: loadFoldValidate_def loadMetadata_def applyDeltas_no_journal say_def)
  then show "fst (loadFoldValidate now' (compactDeltas now s)) = Inr G"
    using G(2) by (simp add: validate_valid)
  note look = finalize_lookups [OF assms(5,6) fin]
  show "js_get G ''lastUpdated'' = JStr now"
    using look by blast
  show "js_add (if truthy (js_get (js_get (folded now s) ''essential'') ''sessionCount'')
                then js_get (js_get (folded now s) ''essential'') ''sessionCount''
                else JNum 0) (JNum 1)
          = Inr (js_get (js_get G ''essential'') ''sessionCount'')"
    using look by blast
  show "js_get G k = js_get (folded now s) k"
    if "k \<noteq> ''lastUpdated'' \<and> k \<noteq> ''essential''" for k
    using look that by blast
  show "js_get (js_get G ''essential'') k = js_get (js_get (folded now s) ''essential'') k"
    if "k \<noteq> ''sessionCount''" for k
    using look that by blast
next
  fix e assume fin: "finalize now (folded now s) = Inl e"
  have same: "compactionFold now s = folded now s"
    using assms(1,2) by (rule compaction_folds_the_same)
  have add: "js_add (if truthy (js_get (js_get (folded now s) ''essential'') ''sessionCount'')
                     then js_get (js_get (folded now s) ''essential'') ''sessionCount''
                     else JNum 0) (JNum 1) = Inl e"
    using finalize_raises [OF assms(5,6)] fin by simp
  from fin assms(8) have "e \<noteq> Unmodelled" by auto
  with js_add_errors [OF add] show "e = TypeError" by simp
  with add show "js_add (if truthy (js_get (js_get (folded now s) ''essential'') ''sessionCount'')
                     then js_get (js_get (folded now s) ''essential'') ''sessionCount''
                     else JNum 0) (JNum 1) = Inl TypeError"
    by simp
  have "finalize now (compactionFold now s) = Inl e"
    using fin same by simp
  then show "fst (loadFoldValidate now' (compactDeltas now s)) = fst (loadFoldValidate now' s)"
    by (intro loadFoldValidate_files compaction_raises)
qed

text \<open>The theorem at the snapshot with session count 5 and one delta pending, compacted on
  20 January and loaded a day later, and at the snapshot whose session count cannot be
  incremented.\<close>

theorem compaction_then_load_witness:
  "fst (loadFoldValidate ''2026-01-20T08:00:00.000Z'' pending)
     = Inr (folded ''2026-01-20T08:00:00.000Z'' pending)
   \<and> fst (loadFoldValidate ''2026-01-21T08:00:00.000Z''
            (compactDeltas ''2026-01-20T08:00:00.000Z'' pending))
       = Inr (JObj [(''version'', JNum 3),
                    (''lastUpdated'', JStr ''2026-01-20T08:00:00.000Z''),
                    (''essential'',
                     JObj [(''lastSession'', JStr ''2026-01-17''),
                           (''stack'', JStr ''Node.js + npm''),
                           (''projects'', JArr [JStr ''iron-tracker''] []),
                           (''sessionCount'', JNum 6)]),
                    (''stack'', JStr ''Deno'')])
   \<and> finalize ''2026-01-20T08:00:00.000Z'' (folded ''2026-01-20T08:00:00.000Z'' jammed)
       = Inl TypeError
   \<and> fst (loadFoldValidate ''2026-01-21T08:00:00.000Z''
            (compactDeltas ''2026-01-20T08:00:00.000Z'' jammed))
       = fst (loadFoldValidate ''2026-01-21T08:00:00.000Z'' jammed)"
proof -
  let ?t = "''2026-01-20T08:00:00.000Z''"
  let ?G = "JObj [(''version'', JNum 3),
                    (''lastUpdated'', JStr ''2026-01-20T08:00:00.000Z''),
                    (''essential'',
                     JObj [(''lastSession'', JStr ''2026-01-17''),
                           (''stack'', JStr ''Node.js + npm''),
                           (''projects'', JArr [JStr ''iron-tracker''] []),
                           (''sessionCount'', JNum 6)]),
                    (''stack'', JStr ''Deno'')]"
  have fold: "folded ?t pending
      = JObj [(''version'', JNum 3),
              (''lastUpdated'', JStr ''2026-01-17T09:00:00.000Z''),
              (''essential'',
               JObj [(''lastSession'', JStr ''2026-01-17''),
                     (''stack'', JStr ''Node.js + npm''),
                     (''projects'', JArr [JStr ''iron-tracker''] []),
                     (''sessionCount'', JNum 5)]),
              (''stack'', JStr ''Deno'')]"
    by (simp add: model_defs pending_def stored_def set_stack_def)
  have fin: "finalize ?t (folded ?t pending) = Inr ?G"
    unfolding fold by (simp add: finalize_def js_add_def safe_integer_def)
  have h0: "metadata_gz pending = Absent"
    by (simp add: pending_def fresh_def)
  have h1: "metadata_json pending = Holds stored"
    by (simp add: pending_def fresh_def)
  have h2: "is_object stored"
    by (simp add: stored_def is_object_def)
  have h3: "?t \<noteq> []"
    by simp
  have h4: "passes_validation (folded ?t pending)"
    unfolding fold by (simp add: passes_validation_def validation_errors_def essential_errors_def)
  have h5: "json_value (folded ?t pending) = folded ?t pending"
    unfolding fold by simp
  have h6: "replay ?t pending stored \<noteq> Inl Unmodelled"
    by (simp add: model_defs pending_def stored_def set_stack_def)
  have h7: "finalize ?t (folded ?t pending) \<noteq> Inl Unmodelled"
    unfolding fin by simp
  have first:
    "fst (loadFoldValidate ?t pending) = Inr (folded ?t pending)
     \<and> fst (loadFoldValidate ''2026-01-21T08:00:00.000Z'' (compactDeltas ?t pending)) = Inr ?G"
    using compaction_then_load [OF h0 h1 h2 h3 h4 h5 h6 h7, of "''2026-01-21T08:00:00.000Z''"]
      fin
    by blast
  have fold': "folded ?t jammed
      = JObj [(''version'', JNum 3),
              (''lastUpdated'', JStr ''2026-01-17T09:00:00.000Z''),
              (''essential'',
               JObj [(''lastSession'', JStr ''2026-01-17''),
                     (''stack'', JStr ''Node.js + npm''),
                     (''projects'', JArr [] []),
                     (''sessionCount'', JObj [(''toString'', JNum 1)])]),
              (''stack'', JStr ''Deno'')]"
    by (simp add: model_defs jammed_def unprintable_def set_stack_def)
  have fin': "finalize ?t (folded ?t jammed) = Inl TypeError"
    unfolding fold' by (simp add: finalize_def js_add_def has_own_def)
  have j0: "metadata_gz jammed = Absent"
    by (simp add: jammed_def fresh_def)
  have j1: "metadata_json jammed = Holds unprintable"
    by (simp add: jammed_def fresh_def)
  have j2: "is_object unprintable"
    by (simp add: unprintable_def is_object_def)
  have j4: "passes_validation (folded ?t jammed)"
    unfolding fold' by (simp add: passes_validation_def validation_errors_def essential_errors_def)
  have j5: "json_value (folded ?t jammed) = folded ?t jammed"
    unfolding fold' by simp
  have j6: "replay ?t jammed unprintable \<noteq> Inl Unmodelled"
    by (simp add: model_defs jammed_def unprintable_def set_stack_def)
  have j7: "finalize ?t (folded ?t jammed) \<noteq> Inl Unmodelled"
    unfolding fin' by simp
  have second:
    "fst (loadFoldValidate ''2026-01-21T08:00:00.000Z'' (compactDeltas ?t jammed))
       = fst (loadFoldValidate ''2026-01-21T08:00:00.000Z'' jammed)"
    using compaction_then_load [OF j0 j1 j2 h3 j4 j5 j6 j7, of "''2026-01-21T08:00:00.000Z''"]
      fin'
    by blast
  from first second fin' show ?thesis
    by blast
qed

text \<open>Claim C1 as stated fails: before compaction the load returns session count 5 and the
  time stamp of 17 January, after it session count 6 and the time of the compaction.\<close>

theorem compaction_changes_result:
  "fst (loadFoldValidate ''2026-01-20T08:00:00.000Z'' pending)
     = Inr (JObj [(''version'', JNum 3),
                  (''lastUpdated'', JStr ''2026-01-17T09:00:00.000Z''),
                  (''essential'',
                   JObj [(''lastSession'', JStr ''2026-01-17''),
                         (''stack'', JStr ''Node.js + npm''),
                         (''projects'', JArr [JStr ''iron-tracker''] []),
                         (''sessionCount'', JNum 5)]),
                  (''stack'', JStr ''Deno'')])
   \<and> fst (loadFoldValidate ''2026-01-20T08:00:00.000Z''
            (compactDeltas ''2026-01-20T08:00:00.000Z'' pending))
       = Inr (JObj [(''version'', JNum 3),
                    (''lastUpdated'', JStr ''2026-01-20T08:00:00.000Z''),
                    (''essential'',
                     JObj [(''lastSession'', JStr ''2026-01-17''),
                           (''stack'', JStr ''Node.js + npm''),
                           (''projects'', JArr [JStr ''iron-tracker''] []),
                           (''sessionCount'', JNum 6)]),
                    (''stack'', JStr ''Deno'')])
   \<and> fst (loadFoldValidate ''2026-01-20T08:00:00.000Z''
            (compactDeltas ''2026-01-20T08:00:00.000Z'' pending))
       \<noteq> fst (loadFoldValidate ''2026-01-20T08:00:00.000Z'' pending)"
  by (simp add: model_defs pending_def stored_def set_stack_def)

end
